theory Spec2Isabelle
  imports Main "HOL-Library.Char_ord" "HOL-Library.List_Lexorder" "HOL-Library.Sublist"
begin

section \<open>Strings and the Go library functions the plugin getter calls\<close>

text \<open>
  A Go \<^verbatim>\<open>string\<close> is a sequence of bytes; it is modelled as \<^typ>\<open>string\<close>, a list of
  8-bit characters. Go compares strings byte by byte, a proper prefix being smaller:
  that is the lexicographic order on \<^typ>\<open>char list\<close> over the byte order of
  \<^typ>\<open>char\<close>. The functions of package \<^verbatim>\<open>strings\<close>, \<^verbatim>\<open>strconv\<close>, \<^verbatim>\<open>sort\<close> and
  \<^verbatim>\<open>path/filepath\<close> below follow the Go standard library; every separator the source
  passes is one byte, so a separator is a \<^typ>\<open>char\<close>. The trimming functions with a
  cutset work on bytes, which is what Go does on ASCII text.
\<close>

type_synonym bytes = string

definition TrimPrefix :: "string \<Rightarrow> string \<Rightarrow> string" where
  "TrimPrefix s p = (if prefix p s then drop (length p) s else s)"

definition TrimSuffix :: "string \<Rightarrow> string \<Rightarrow> string" where
  "TrimSuffix s p = (if suffix p s then take (length s - length p) s else s)"

definition TrimLeft :: "string \<Rightarrow> string \<Rightarrow> string" where
  "TrimLeft s cutset = dropWhile (\<lambda>c. c \<in> set cutset) s"

definition TrimRight :: "string \<Rightarrow> string \<Rightarrow> string" where
  "TrimRight s cutset = rev (dropWhile (\<lambda>c. c \<in> set cutset) (rev s))"

text \<open>\<^verbatim>\<open>strings.Split(s, sep)\<close>: the pieces of \<open>s\<close> between the separators, never empty.\<close>

fun Split :: "string \<Rightarrow> char \<Rightarrow> string list" where
  "Split [] sep = [[]]"
| "Split (c # s) sep =
     (if c = sep then [] # Split s sep
      else (case Split s sep of [] \<Rightarrow> [[c]] | p # ps \<Rightarrow> (c # p) # ps))"

text \<open>\<^verbatim>\<open>strings.SplitN(s, sep, n)\<close> for \<open>n > 0\<close>: at most \<open>n\<close> pieces, the last one
  the unsplit rest; \<open>n = 0\<close> gives \<^verbatim>\<open>nil\<close>.\<close>

fun SplitN :: "string \<Rightarrow> char \<Rightarrow> nat \<Rightarrow> string list" where
  "SplitN s sep 0 = []"
| "SplitN s sep (Suc 0) = [s]"
| "SplitN [] sep (Suc (Suc n)) = [[]]"
| "SplitN (c # s) sep (Suc (Suc n)) =
     (if c = sep then [] # SplitN s sep (Suc n)
      else (case SplitN s sep (Suc (Suc n)) of [] \<Rightarrow> [[c]] | p # ps \<Rightarrow> (c # p) # ps))"

text \<open>\<^verbatim>\<open>filepath.Ext\<close>: the suffix from the last dot of the last path element.\<close>

fun Ext_from :: "string \<Rightarrow> string \<Rightarrow> string" where
  "Ext_from [] acc = []"
| "Ext_from (c # r) acc =
     (if c = CHR ''/'' then []
      else if c = CHR ''.'' then c # acc
      else Ext_from r (c # acc))"

definition filepath_Ext :: "string \<Rightarrow> string" where
  "filepath_Ext path = Ext_from (rev path) []"

text \<open>\<^verbatim>\<open>filepath.Base\<close> (Unix): the last element of the path, trailing slashes removed.\<close>

definition filepath_Base :: "string \<Rightarrow> string" where
  "filepath_Base path =
     (if path = [] then ''.''
      else let p = rev (dropWhile (\<lambda>c. c = CHR ''/'') (rev path));
               e = rev (takeWhile (\<lambda>c. c \<noteq> CHR ''/'') (rev p))
           in if e = [] then ''/'' else e)"

text \<open>The errors the code builds (\<^verbatim>\<open>fmt.Errorf\<close>), one constructor per message;
  a wrapped error keeps the error it wraps. \<open>External\<close> stands for the errors of
  the collaborators (getters, checksummers, the operating system, the decoders).\<close>

datatype error =
    AtoiSyntax string
  | AtoiRange string
  | InvalidRemoteProtocol string
  | UnsupportedMajor string
  | UnsupportedMinor string
  | MalformedFilename
  | WrongVersion
  | WrongSystem
  | GlobFailed error
  | NoReleaseVersion
  | MkdirFailed error
  | CouldNotGetChecksumFile error
  | NoChecksum
  | TmpFileFailed error
  | StatFailed error
  | ZipFailed error
  | EntryNotFound string
  | CreateFailed error
  | ExtractFailed error
  | External nat

text \<open>A Go call either returns or panics.\<close>

datatype panic = IndexOutOfRange | NilDereference | PanicError error

datatype 'a result = Panicked panic | Returned 'a

text \<open>\<^verbatim>\<open>strconv.Atoi\<close> with a 64-bit \<^verbatim>\<open>int\<close>: an optional sign, then one or more
  decimal digits, the value within the range of the type.\<close>

definition is_digit :: "char \<Rightarrow> bool" where
  "is_digit c = (48 \<le> (of_char c :: nat) \<and> (of_char c :: nat) \<le> 57)"

definition digits_val :: "string \<Rightarrow> nat" where
  "digits_val ds = foldl (\<lambda>n c. 10 * n + ((of_char c :: nat) - 48)) 0 ds"

definition Atoi :: "string \<Rightarrow> error + int" where
  "Atoi s =
     (let neg = (s \<noteq> [] \<and> hd s = CHR ''-'');
          ds = (if s \<noteq> [] \<and> (hd s = CHR ''-'' \<or> hd s = CHR ''+'') then tl s else s)
      in if ds = [] \<or> \<not> list_all is_digit ds then Inl (AtoiSyntax s)
         else let n = int (digits_val ds); v = (if neg then - n else n)
              in if v < - (2 ^ 63) \<or> 2 ^ 63 - 1 < v then Inl (AtoiRange s) else Inr v)"

text \<open>\<^verbatim>\<open>hex.EncodeToString\<close>: two lower-case hexadecimal digits per byte.\<close>

definition hex_digit :: "nat \<Rightarrow> char" where
  "hex_digit n = ''0123456789abcdef'' ! (n mod 16)"

definition hex_EncodeToString :: "bytes \<Rightarrow> string" where
  "hex_EncodeToString bs =
     concat (map (\<lambda>b. [hex_digit ((of_char b :: nat) div 16), hex_digit ((of_char b :: nat) mod 16)]) bs)"

text \<open>\<^verbatim>\<open>sort.Search(n, f)\<close>: binary search for the smallest index in \<open>[0, n)\<close> at which
  \<open>f\<close> holds, \<open>n\<close> when there is none (for a monotone \<open>f\<close>).\<close>

function Search_loop :: "(nat \<Rightarrow> bool) \<Rightarrow> nat \<Rightarrow> nat \<Rightarrow> nat" where
  "Search_loop f i j =
     (if i < j
      then (let h = (i + j) div 2
            in if \<not> f h then Search_loop f (h + 1) j else Search_loop f i h)
      else i)"
  by pat_completeness auto
termination
  by (relation "measure (\<lambda>(f, i, j). j - i)") auto

definition Search :: "nat \<Rightarrow> (nat \<Rightarrow> bool) \<Rightarrow> nat" where
  "Search n f = Search_loop f 0 n"

section \<open>The data model of \<^verbatim>\<open>plugins.go\<close>\<close>

text \<open>
  Type parameters: \<open>'s\<close> is the state of the file system, \<open>'c\<close> the type of version
  constraints and \<open>'v\<close> the type of parsed versions (package \<^verbatim>\<open>go-version\<close>).
  Log output is not modelled: no result depends on it.
\<close>

text \<open>Modelled from the spec: the plugin address \<^verbatim>\<open>addrs.Plugin\<close> of package
  \<^verbatim>\<open>hcl2template/addrs\<close> and its method \<^verbatim>\<open>Parts\<close>, which are not among the sources:
  the triple (hostname, namespace, type), \<open>parts() = [hostname, namespace, type]\<close>.\<close>

record Plugin =
  Hostname :: string
  Namespace :: string
  Type :: string

definition Parts :: "Plugin \<Rightarrow> string list" where
  "Parts p = [Hostname p, Namespace p, Type p]"

record 'c Requirement =
  Accessor :: string
  Identifier :: Plugin
  VersionConstraints :: 'c

text \<open>The interface \<^verbatim>\<open>Checksummer\<close> is declared outside the sources; its field and
  methods are taken as they are called. A method that reads a file reads the state.\<close>

record 's Checksummer =
  Checksummer_Type :: string
  FileExt :: string
  Sum :: "bytes \<Rightarrow> error + bytes"
  ParseChecksum :: "string \<Rightarrow> error + bytes"
  Checksum :: "bytes \<Rightarrow> bytes \<Rightarrow> error option"
  ChecksumFile :: "bytes \<Rightarrow> string \<Rightarrow> 's \<Rightarrow> error option"
  GetChecksumOfFile :: "string \<Rightarrow> 's \<Rightarrow> error + bytes"

record 's BinaryInstallationOptions =
  APIVersionMajor :: string
  APIVersionMinor :: string
  OS :: string
  ARCH :: string
  Ext :: string
  Checksummers :: "'s Checksummer list"

text \<open>Go embeds \<^verbatim>\<open>BinaryInstallationOptions\<close> in the three option structs; here it
  is a named field of each (\<open>List_BinOpts\<close>, \<open>Get_BinOpts\<close>, \<open>Install_BinOpts\<close>).\<close>

record 's ListInstallationsOptions =
  FromFolders :: "string list"
  List_BinOpts :: "'s BinaryInstallationOptions"

record ('s, 'c, 'v) GetOptions =
  PluginRequirement :: "'c Requirement"
  Get_BinOpts :: "'s BinaryInstallationOptions"
  version :: "'v option"

text \<open>What a reader yields: the bytes read, and the error the read ends with, if any.\<close>

type_synonym stream = "bytes \<times> error option"

type_synonym ('s, 'c, 'v) Getter = "string \<Rightarrow> ('s, 'c, 'v) GetOptions \<Rightarrow> error + stream"

record ('s, 'c, 'v) InstallOptions =
  Getters :: "('s, 'c, 'v) Getter list"
  InFolders :: "string list"
  Install_BinOpts :: "'s BinaryInstallationOptions"

datatype Release = Release (Release_Version: string)

record ChecksumFileEntry =
  Filename :: string
  Checksum_field :: string
  ext :: string
  binVersion :: string
  os :: string
  arch :: string
  protVersion :: string

record 's FileChecksum =
  FC_Filename :: string
  FC_Expected :: bytes
  FC_Checksummer :: "'s Checksummer"

record Installation =
  BinaryPath :: string
  Version :: string

type_synonym InstallList = "Installation list"

text \<open>
  The libraries and the operating system the code calls, as parameters: package
  \<^verbatim>\<open>go-version\<close> (\<open>NewVersion\<close>, \<open>Check\<close>, \<open>Version_String\<close>, \<open>LessThan\<close>, the order
  of \<^verbatim>\<open>version.Collection\<close>, and \<open>Sort_Reverse\<close> for
  \<^verbatim>\<open>sort.Sort(sort.Reverse(versions))\<close>), the JSON decoders, \<^verbatim>\<open>filepath.Join\<close>,
  \<^verbatim>\<open>filepath.Dir\<close> and \<^verbatim>\<open>filepath.Glob\<close>, the zip reader (each entry: its name and
  what \<^verbatim>\<open>Open\<close> returns), and the file operations, each a transition of the state
  with the error it reports. The temporary file of one download is private to it:
  its content is the bytes copied into it.
\<close>

record ('s, 'c, 'v) world =
  NewVersion :: "string \<Rightarrow> error + 'v"
  Check :: "'c \<Rightarrow> 'v \<Rightarrow> bool"
  Version_String :: "'v \<Rightarrow> string"
  LessThan :: "'v \<Rightarrow> 'v \<Rightarrow> bool"
  Sort_Reverse :: "'v list \<Rightarrow> 'v list"
  DecodeReleases :: "stream \<Rightarrow> error + Release list"
  DecodeEntries :: "stream \<Rightarrow> error + (string \<times> string) list"
  Join :: "string list \<Rightarrow> string"
  Dir :: "string \<Rightarrow> string"
  Glob :: "string \<Rightarrow> 's \<Rightarrow> error + string list"
  ZipReader :: "bytes \<Rightarrow> error + (string \<times> (error + stream)) list"
  MkdirAll :: "string \<Rightarrow> 's \<Rightarrow> error option \<times> 's"
  TempFile :: "'s \<Rightarrow> error option \<times> 's"
  WriteTemp :: "bytes \<Rightarrow> 's \<Rightarrow> error option \<times> 's"
  SeekTemp :: "'s \<Rightarrow> error option"
  TruncateTemp :: "'s \<Rightarrow> error option \<times> 's"
  StatTemp :: "'s \<Rightarrow> error option"
  OpenFile :: "string \<Rightarrow> 's \<Rightarrow> error option \<times> 's"
  WriteOpen :: "string \<Rightarrow> bytes \<Rightarrow> 's \<Rightarrow> error option \<times> 's"
  SeekOpen :: "string \<Rightarrow> 's \<Rightarrow> error option"
  WriteFile :: "string \<Rightarrow> bytes \<Rightarrow> 's \<Rightarrow> error option \<times> 's"

section \<open>The functions of \<^verbatim>\<open>plugins.go\<close>\<close>

definition FilenamePrefix :: "'c Requirement \<Rightarrow> string" where
  "FilenamePrefix pr = ''packer-plugin-'' @ Type (Identifier pr) @ ''_''"

definition filenameSuffix :: "'s BinaryInstallationOptions \<Rightarrow> string" where
  "filenameSuffix opts = ''_'' @ OS opts @ ''_'' @ ARCH opts @ Ext opts"

subsection \<open>\<^verbatim>\<open>InstallList.InsertSortedUniq\<close>\<close>

definition InsertSortedUniq :: "InstallList \<Rightarrow> Installation \<Rightarrow> InstallList" where
  "InsertSortedUniq l install =
     (let pos = Search (length l) (\<lambda>i. Version (l ! i) \<ge> Version install)
      in if length l > pos \<and> Version (l ! pos) = Version install then l
         else take pos l @ [install] @ drop pos l)"

subsection \<open>\<^verbatim>\<open>BinaryInstallationOptions.CheckProtocolVersion\<close>\<close>

definition CheckProtocolVersion :: "'s BinaryInstallationOptions \<Rightarrow> string \<Rightarrow> error option" where
  "CheckProtocolVersion binOpts remoteProt0 =
     (let remoteProt = TrimPrefix remoteProt0 ''x'';
          parts = Split remoteProt CHR ''.''
      in if length parts < 2 then Some (InvalidRemoteProtocol remoteProt)
         else let vMajor = parts ! 0; vMinor = parts ! 1
              in if vMajor \<noteq> APIVersionMajor binOpts then Some (UnsupportedMajor vMajor)
                 else if vMinor = APIVersionMinor binOpts then None
                 else (case Atoi vMinor of
                         Inl err \<Rightarrow> Some err
                       | Inr vMinori \<Rightarrow>
                           (case Atoi (APIVersionMinor binOpts) of
                              Inl err \<Rightarrow> Some err
                            | Inr APIVersoinMinori \<Rightarrow>
                                if vMinori > APIVersoinMinori then Some (UnsupportedMinor vMinor)
                                else None)))"

subsection \<open>\<^verbatim>\<open>GetOptions.Version\<close>, \<^verbatim>\<open>GetOptions.ExpectedFilename\<close>\<close>

text \<open>\<^verbatim>\<open>gp.version\<close> is a pointer; \<^verbatim>\<open>String\<close> on \<^verbatim>\<open>nil\<close> panics.\<close>

definition GetOptions_Version ::
  "('s, 'c, 'v) world \<Rightarrow> ('s, 'c, 'v) GetOptions \<Rightarrow> string result" where
  "GetOptions_Version w gp =
     (case version gp of
        None \<Rightarrow> Panicked NilDereference
      | Some v \<Rightarrow> Returned (''v'' @ Version_String w v))"

definition ExpectedFilename ::
  "('s, 'c, 'v) world \<Rightarrow> ('s, 'c, 'v) GetOptions \<Rightarrow> string result" where
  "ExpectedFilename w gp =
     (case GetOptions_Version w gp of
        Panicked p \<Rightarrow> Panicked p
      | Returned v \<Rightarrow>
          Returned (FilenamePrefix (PluginRequirement gp) @ v @ filenameSuffix (Get_BinOpts gp)))"

subsection \<open>\<^verbatim>\<open>ChecksumFileEntry.init\<close> and \<^verbatim>\<open>validate\<close>\<close>

text \<open>\<open>init\<close> returns the entry as it leaves it, and its error.\<close>

definition init ::
  "ChecksumFileEntry \<Rightarrow> ('s, 'c, 'v) GetOptions \<Rightarrow> ChecksumFileEntry \<times> error option" where
  "init e getOpts =
     (let filename = Filename e;
          res = TrimLeft filename (FilenamePrefix (PluginRequirement getOpts));
          e1 = e\<lparr>ext := filepath_Ext res\<rparr>;
          res = TrimRight res (ext e1);
          parts = Split res CHR ''_''
      in if length parts < 4 then (e1, Some MalformedFilename)
         else (e1\<lparr>binVersion := parts ! 0, protVersion := parts ! 1,
                   os := parts ! 2, arch := parts ! 3\<rparr>, None))"

definition validate ::
  "('s, 'c, 'v) world \<Rightarrow> ChecksumFileEntry \<Rightarrow> ('s, 'c, 'v) GetOptions \<Rightarrow> error option result" where
  "validate w e getOpts =
     (case GetOptions_Version w getOpts of
        Panicked p \<Rightarrow> Panicked p
      | Returned v \<Rightarrow>
          if binVersion e \<noteq> v then Returned (Some WrongVersion)
          else if os e \<noteq> OS (Get_BinOpts getOpts) \<or> arch e \<noteq> ARCH (Get_BinOpts getOpts)
               then Returned (Some WrongSystem)
          else Returned (CheckProtocolVersion (Get_BinOpts getOpts) (protVersion e)))"

subsection \<open>\<^verbatim>\<open>Requirement.ListInstallations\<close>\<close>

text \<open>The loop over \<^verbatim>\<open>opts.Checksummers\<close> that sets \<^verbatim>\<open>checksumOk\<close>.\<close>

fun checksumOk :: "'s Checksummer list \<Rightarrow> string \<Rightarrow> 's \<Rightarrow> bool" where
  "checksumOk [] path s = False"
| "checksumOk (checksummer # rest) path s =
     (case GetChecksumOfFile checksummer path s of
        Inl err \<Rightarrow> checksumOk rest path s
      | Inr cs \<Rightarrow>
          (case ChecksumFile checksummer cs path s of
             Some err \<Rightarrow> checksumOk rest path s
           | None \<Rightarrow> True))"

text \<open>The loop over the matches of one folder. \<^verbatim>\<open>parts[1]\<close> is read without a check
  of the length of \<^verbatim>\<open>parts\<close>: with one part the index is out of range.\<close>

fun scan_matches ::
  "('s, 'c, 'v) world \<Rightarrow> 'c Requirement \<Rightarrow> 's ListInstallationsOptions \<Rightarrow> string list
   \<Rightarrow> InstallList \<Rightarrow> 's \<Rightarrow> InstallList result" where
  "scan_matches w pr opts [] res s = Returned res"
| "scan_matches w pr opts (path # matches) res s =
     (let fname = filepath_Base path
      in if fname = ''.'' then scan_matches w pr opts matches res s
         else
           let versionsStr = TrimPrefix fname (FilenamePrefix pr);
               versionsStr = TrimSuffix versionsStr (filenameSuffix (List_BinOpts opts));
               parts = SplitN versionsStr CHR ''_'' 2
           in if length parts < 2 then Panicked IndexOutOfRange
              else
                let pluginVersionStr = parts ! 0; protocolVerionStr = parts ! 1
                in (case NewVersion w pluginVersionStr of
                      Inl err \<Rightarrow> scan_matches w pr opts matches res s
                    | Inr pv \<Rightarrow>
                        if \<not> Check w (VersionConstraints pr) pv
                        then scan_matches w pr opts matches res s
                        else
                          (case CheckProtocolVersion (List_BinOpts opts) protocolVerionStr of
                             Some err \<Rightarrow> scan_matches w pr opts matches res s
                           | None \<Rightarrow>
                               if \<not> checksumOk (Checksummers (List_BinOpts opts)) path s
                               then scan_matches w pr opts matches res s
                               else scan_matches w pr opts matches
                                      (InsertSortedUniq res
                                         \<lparr>BinaryPath = path, Version = pluginVersionStr\<rparr>) s)))"

fun scan_folders ::
  "('s, 'c, 'v) world \<Rightarrow> 'c Requirement \<Rightarrow> 's ListInstallationsOptions \<Rightarrow> string list
   \<Rightarrow> InstallList \<Rightarrow> 's \<Rightarrow> (error + InstallList) result" where
  "scan_folders w pr opts [] res s = Returned (Inr res)"
| "scan_folders w pr opts (knownFolder # folders) res s =
     (let glob = Join w [knownFolder, Hostname (Identifier pr), Namespace (Identifier pr),
                         Type (Identifier pr),
                         FilenamePrefix pr @ ''*'' @ filenameSuffix (List_BinOpts opts)]
      in (case Glob w glob s of
            Inl err \<Rightarrow> Returned (Inl (GlobFailed err))
          | Inr matches \<Rightarrow>
              (case scan_matches w pr opts matches res s of
                 Panicked p \<Rightarrow> Panicked p
               | Returned res' \<Rightarrow> scan_folders w pr opts folders res' s)))"

definition ListInstallations ::
  "('s, 'c, 'v) world \<Rightarrow> 'c Requirement \<Rightarrow> 's ListInstallationsOptions \<Rightarrow> 's
   \<Rightarrow> (error + InstallList) result" where
  "ListInstallations w pr opts s = scan_folders w pr opts (FromFolders opts) [] s"

subsection \<open>\<^verbatim>\<open>Requirement.InstallLatest\<close>\<close>

definition ParseReleases :: "('s, 'c, 'v) world \<Rightarrow> stream \<Rightarrow> error + Release list" where
  "ParseReleases w f = DecodeReleases w f"

text \<open>The decoder fills the two exported fields of an entry; the others stay empty.\<close>

definition ParseChecksumFileEntries ::
  "('s, 'c, 'v) world \<Rightarrow> stream \<Rightarrow> error + ChecksumFileEntry list" where
  "ParseChecksumFileEntries w f =
     (case DecodeEntries w f of
        Inl err \<Rightarrow> Inl err
      | Inr es \<Rightarrow>
          Inr (map (\<lambda>(fn, cs). \<lparr>Filename = fn, Checksum_field = cs, ext = [], binVersion = [],
                                 os = [], arch = [], protVersion = []\<rparr>) es))"

text \<open>Phase A, the loop over the releases of one getter: a version that does not
  parse panics.\<close>

fun collect_versions ::
  "('s, 'c, 'v) world \<Rightarrow> 'c \<Rightarrow> Release list \<Rightarrow> 'v list \<Rightarrow> 'v list result" where
  "collect_versions w cs [] versions = Returned versions"
| "collect_versions w cs (release # releases) versions =
     (case NewVersion w (Release_Version release) of
        Inl err \<Rightarrow> Panicked (PanicError err)
      | Inr v \<Rightarrow>
          collect_versions w cs releases (if Check w cs v then versions @ [v] else versions))"

text \<open>Phase A, the loop over the getters.\<close>

fun discover_versions ::
  "('s, 'c, 'v) world \<Rightarrow> 'c Requirement \<Rightarrow> ('s, 'c, 'v) GetOptions
   \<Rightarrow> ('s, 'c, 'v) Getter list \<Rightarrow> 'v list \<Rightarrow> 'v list result" where
  "discover_versions w pr getOpts [] versions = Returned versions"
| "discover_versions w pr getOpts (getter # getters) versions =
     (case getter ''releases'' getOpts of
        Inl err \<Rightarrow> discover_versions w pr getOpts getters versions
      | Inr releasesFile \<Rightarrow>
          (case ParseReleases w releasesFile of
             Inl err \<Rightarrow> discover_versions w pr getOpts getters versions
           | Inr releases \<Rightarrow>
               if length releases = 0 then discover_versions w pr getOpts getters versions
               else
                 (case collect_versions w (VersionConstraints pr) releases versions of
                    Panicked p \<Rightarrow> Panicked p
                  | Returned versions' \<Rightarrow>
                      if length versions' = 0
                      then discover_versions w pr getOpts getters versions'
                      else Returned (Sort_Reverse w versions'))))"

text \<open>Locating the checksum: the loop over the entries of one manifest, the loop over
  the checksummers for one getter, and the loop over the getters. Each loop of the
  source stops as soon as \<^verbatim>\<open>checksum\<close> is set; a getter that fails to deliver a
  manifest makes \<^verbatim>\<open>InstallLatest\<close> return its error.\<close>

fun find_entry ::
  "('s, 'c, 'v) world \<Rightarrow> ('s, 'c, 'v) GetOptions \<Rightarrow> 's Checksummer
   \<Rightarrow> ChecksumFileEntry list \<Rightarrow> 's FileChecksum option result" where
  "find_entry w getOpts checksummer [] = Returned None"
| "find_entry w getOpts checksummer (entry0 # entries) =
     (case init entry0 getOpts of
        (entry, Some err) \<Rightarrow> find_entry w getOpts checksummer entries
      | (entry, None) \<Rightarrow>
          (case validate w entry getOpts of
             Panicked p \<Rightarrow> Panicked p
           | Returned (Some err) \<Rightarrow> find_entry w getOpts checksummer entries
           | Returned None \<Rightarrow>
               (case ParseChecksum checksummer (Checksum_field entry) of
                  Inl err \<Rightarrow> find_entry w getOpts checksummer entries
                | Inr cs \<Rightarrow>
                    Returned (Some \<lparr>FC_Filename = Filename entry, FC_Expected = cs,
                                    FC_Checksummer = checksummer\<rparr>))))"

fun locate_in_getter ::
  "('s, 'c, 'v) world \<Rightarrow> ('s, 'c, 'v) GetOptions \<Rightarrow> ('s, 'c, 'v) Getter
   \<Rightarrow> 's Checksummer list \<Rightarrow> (error + 's FileChecksum option) result" where
  "locate_in_getter w getOpts getter [] = Returned (Inr None)"
| "locate_in_getter w getOpts getter (checksummer # rest) =
     (case getter (Checksummer_Type checksummer) getOpts of
        Inl err \<Rightarrow> Returned (Inl (CouldNotGetChecksumFile err))
      | Inr checksumFile \<Rightarrow>
          (case ParseChecksumFileEntries w checksumFile of
             Inl err \<Rightarrow> locate_in_getter w getOpts getter rest
           | Inr entries \<Rightarrow>
               (case find_entry w getOpts checksummer entries of
                  Panicked p \<Rightarrow> Panicked p
                | Returned None \<Rightarrow> locate_in_getter w getOpts getter rest
                | Returned (Some checksum) \<Rightarrow> Returned (Inr (Some checksum)))))"

fun locate_checksum ::
  "('s, 'c, 'v) world \<Rightarrow> ('s, 'c, 'v) GetOptions \<Rightarrow> ('s, 'c, 'v) Getter list
   \<Rightarrow> 's Checksummer list \<Rightarrow> (error + 's FileChecksum option) result" where
  "locate_checksum w getOpts [] checksummers = Returned (Inr None)"
| "locate_checksum w getOpts (getter # getters) checksummers =
     (case locate_in_getter w getOpts getter checksummers of
        Returned (Inr None) \<Rightarrow> locate_checksum w getOpts getters checksummers
      | r \<Rightarrow> r)"

text \<open>The loop over \<^verbatim>\<open>opts.Checksummers\<close> that looks for a sidecar of the output
  file: true when the function returns \<^verbatim>\<open>nil, nil\<close> from it.\<close>

fun already_installed :: "'s Checksummer list \<Rightarrow> string \<Rightarrow> 's \<Rightarrow> bool" where
  "already_installed [] outputFileName s = False"
| "already_installed (potentialChecksumer # rest) outputFileName s =
     (case GetChecksumOfFile potentialChecksumer outputFileName s of
        Inl err \<Rightarrow> already_installed rest outputFileName s
      | Inr cs \<Rightarrow>
          if length cs > 0 \<and> ChecksumFile potentialChecksumer cs outputFileName s = None
          then True
          else already_installed rest outputFileName s)"

text \<open>What one pass of the loop over the versions ends with: the function returns or
  panics (\<open>Stop\<close>), or the loop goes on to the next version.\<close>

datatype attempt = Stop "(error + Installation option) result" | NextVersion

text \<open>\<^verbatim>\<open>io.Copy\<close> into the temporary file, and into the output file.\<close>

definition copy_to_temp ::
  "('s, 'c, 'v) world \<Rightarrow> stream \<Rightarrow> 's \<Rightarrow> error option \<times> 's" where
  "copy_to_temp w f s =
     (case WriteTemp w (fst f) s of
        (Some err, s') \<Rightarrow> (Some err, s')
      | (None, s') \<Rightarrow> (snd f, s'))"

definition copy_to_file ::
  "('s, 'c, 'v) world \<Rightarrow> string \<Rightarrow> stream \<Rightarrow> 's \<Rightarrow> error option \<times> 's" where
  "copy_to_file w name f s =
     (case WriteOpen w name (fst f) s of
        (Some err, s') \<Rightarrow> (Some err, s')
      | (None, s') \<Rightarrow> (snd f, s'))"

text \<open>The loop over \<^verbatim>\<open>zr.File\<close>: the first entry with the expected name is opened.\<close>

fun find_zip_entry ::
  "(string \<times> (error + stream)) list \<Rightarrow> string \<Rightarrow> error + stream option" where
  "find_zip_entry [] name = Inr None"
| "find_zip_entry ((fName, fOpen) # files) name =
     (if fName \<noteq> name then find_zip_entry files name
      else (case fOpen of Inl err \<Rightarrow> Inl err | Inr copyFrom \<Rightarrow> Inr (Some copyFrom)))"

text \<open>One getter's archive, once its checksum is verified: extraction, the sidecar,
  and the installation returned.\<close>

definition install_archive ::
  "('s, 'c, 'v) world \<Rightarrow> 's FileChecksum \<Rightarrow> string \<Rightarrow> 'v \<Rightarrow> bytes \<Rightarrow> 's
   \<Rightarrow> (error + Installation option) result \<times> 's" where
  "install_archive w checksum outputFileName ver zipdata s =
     (case StatTemp w s of
        Some err \<Rightarrow> (Returned (Inl (StatFailed err)), s)
      | None \<Rightarrow>
          (case ZipReader w zipdata of
             Inl err \<Rightarrow> (Returned (Inl (ZipFailed err)), s)
           | Inr files \<Rightarrow>
               (case find_zip_entry files (filepath_Base outputFileName) of
                  Inl err \<Rightarrow> (Returned (Inl err), s)
                | Inr None \<Rightarrow> (Returned (Inl (EntryNotFound (FC_Filename checksum))), s)
                | Inr (Some copyFrom) \<Rightarrow>
                    (case OpenFile w outputFileName s of
                       (Some err, s1) \<Rightarrow> (Returned (Inl (CreateFailed err)), s1)
                     | (None, s1) \<Rightarrow>
                         (case copy_to_file w outputFileName copyFrom s1 of
                            (Some err, s2) \<Rightarrow> (Returned (Inl (ExtractFailed err)), s2)
                          | (None, s2) \<Rightarrow>
                              let content = (if SeekOpen w outputFileName s2 = None
                                             then fst copyFrom else []);
                                  cs = (case Sum (FC_Checksummer checksum) content of
                                          Inl err \<Rightarrow> []
                                        | Inr cs \<Rightarrow> cs);
                                  s3 = snd (WriteFile w
                                              (outputFileName @ FileExt (FC_Checksummer checksum))
                                              (hex_EncodeToString cs) s2)
                              in (Returned (Inr (Some \<lparr>BinaryPath = outputFileName,
                                     Version = ''v'' @ Version_String w ver\<rparr>)), s3))))))"

text \<open>The loop over the getters that fetches the archive.\<close>

fun fetch_archive ::
  "('s, 'c, 'v) world \<Rightarrow> ('s, 'c, 'v) GetOptions \<Rightarrow> 's FileChecksum \<Rightarrow> string \<Rightarrow> 'v
   \<Rightarrow> ('s, 'c, 'v) Getter list \<Rightarrow> 's \<Rightarrow> attempt \<times> 's" where
  "fetch_archive w getOpts checksum outputFileName ver [] s = (NextVersion, s)"
| "fetch_archive w getOpts checksum outputFileName ver (getter # getters) s =
     (case TempFile w s of
        (Some err, s1) \<Rightarrow> (Stop (Returned (Inl (TmpFileFailed err))), s1)
      | (None, s1) \<Rightarrow>
          (case getter ''zip'' getOpts of
             Inl err \<Rightarrow> fetch_archive w getOpts checksum outputFileName ver getters s1
           | Inr remoteZipFile \<Rightarrow>
               (case copy_to_temp w remoteZipFile s1 of
                  (Some err, s2) \<Rightarrow>
                    fetch_archive w getOpts checksum outputFileName ver getters s2
                | (None, s2) \<Rightarrow>
                    (case SeekTemp w s2 of
                       Some err \<Rightarrow>
                         fetch_archive w getOpts checksum outputFileName ver getters s2
                     | None \<Rightarrow>
                         (case Checksum (FC_Checksummer checksum) (FC_Expected checksum)
                                 (fst remoteZipFile) of
                            Some err \<Rightarrow>
                              fetch_archive w getOpts checksum outputFileName ver getters
                                (snd (TruncateTemp w s2))
                          | None \<Rightarrow>
                              (case install_archive w checksum outputFileName ver
                                      (fst remoteZipFile) s2 of
                                 (r, s3) \<Rightarrow> (Stop r, s3)))))))"

text \<open>The body of the loop over the versions.\<close>

definition try_version ::
  "('s, 'c, 'v) world \<Rightarrow> 'c Requirement \<Rightarrow> ('s, 'c, 'v) InstallOptions
   \<Rightarrow> ('s, 'c, 'v) GetOptions \<Rightarrow> 'v \<Rightarrow> 's \<Rightarrow> attempt \<times> 's" where
  "try_version w pr opts getOpts0 ver s =
     (let getOpts = getOpts0\<lparr>version := Some ver\<rparr>
      in if InFolders opts = [] then (Stop (Panicked IndexOutOfRange), s)
         else
           let outputFolder = Join w [last (InFolders opts), Join w (Parts (Identifier pr))]
           in (case MkdirAll w (Dir w outputFolder) s of
                 (Some err, s1) \<Rightarrow> (Stop (Returned (Inl (MkdirFailed err))), s1)
               | (None, s1) \<Rightarrow>
                   (case locate_checksum w getOpts (Getters opts)
                           (Checksummers (Install_BinOpts opts)) of
                      Panicked p \<Rightarrow> (Stop (Panicked p), s1)
                    | Returned (Inl err) \<Rightarrow> (Stop (Returned (Inl err)), s1)
                    | Returned (Inr None) \<Rightarrow> (Stop (Returned (Inl NoChecksum)), s1)
                    | Returned (Inr (Some checksum)) \<Rightarrow>
                        let outputFileName =
                              Join w [outputFolder,
                                      TrimSuffix (FC_Filename checksum)
                                        (filepath_Ext (FC_Filename checksum))]
                        in if already_installed (Checksummers (Install_BinOpts opts))
                                outputFileName s1
                           then (Stop (Returned (Inr None)), s1)
                           else fetch_archive w getOpts checksum outputFileName ver
                                  (Getters opts) s1)))"

fun try_versions ::
  "('s, 'c, 'v) world \<Rightarrow> 'c Requirement \<Rightarrow> ('s, 'c, 'v) InstallOptions
   \<Rightarrow> ('s, 'c, 'v) GetOptions \<Rightarrow> 'v list \<Rightarrow> 's
   \<Rightarrow> (error + Installation option) result \<times> 's" where
  "try_versions w pr opts getOpts [] s = (Returned (Inr None), s)"
| "try_versions w pr opts getOpts (ver # versions) s =
     (case try_version w pr opts getOpts ver s of
        (Stop r, s') \<Rightarrow> (r, s')
      | (NextVersion, s') \<Rightarrow> try_versions w pr opts getOpts versions s')"

definition InstallLatest ::
  "('s, 'c, 'v) world \<Rightarrow> 'c Requirement \<Rightarrow> ('s, 'c, 'v) InstallOptions \<Rightarrow> 's
   \<Rightarrow> (error + Installation option) result \<times> 's" where
  "InstallLatest w pr opts s =
     (let getters = Getters opts;
          getOpts = \<lparr>PluginRequirement = pr, Get_BinOpts = Install_BinOpts opts,
                     version = None\<rparr>
      in (case discover_versions w pr getOpts getters [] of
            Panicked p \<Rightarrow> (Panicked p, s)
          | Returned versions \<Rightarrow>
              if length versions = 0 then (Returned (Inl NoReleaseVersion), s)
              else try_versions w pr opts getOpts versions s))"

section \<open>Notions used to state the properties\<close>

text \<open>The state after the attempts at the versions of a list, when each of them ended
  by going on to the next version; \<open>None\<close> when one of them returned or panicked.\<close>

fun exhausted ::
  "('s, 'c, 'v) world \<Rightarrow> 'c Requirement \<Rightarrow> ('s, 'c, 'v) InstallOptions
   \<Rightarrow> ('s, 'c, 'v) GetOptions \<Rightarrow> 'v list \<Rightarrow> 's \<Rightarrow> 's option" where
  "exhausted w pr opts getOpts [] s = Some s"
| "exhausted w pr opts getOpts (ver # versions) s =
     (case try_version w pr opts getOpts ver s of
        (Stop r, s') \<Rightarrow> None
      | (NextVersion, s') \<Rightarrow> exhausted w pr opts getOpts versions s')"

text \<open>The options \<^verbatim>\<open>InstallLatest\<close> hands to its getters before a version is chosen.\<close>

definition initial_GetOptions ::
  "'c Requirement \<Rightarrow> ('s, 'c, 'v) InstallOptions \<Rightarrow> ('s, 'c, 'v) GetOptions" where
  "initial_GetOptions pr opts =
     \<lparr>PluginRequirement = pr, Get_BinOpts = Install_BinOpts opts, version = None\<rparr>"

text \<open>The output folder and the output file name of an installation.\<close>

definition outputFolder_of ::
  "('s, 'c, 'v) world \<Rightarrow> 'c Requirement \<Rightarrow> ('s, 'c, 'v) InstallOptions \<Rightarrow> string" where
  "outputFolder_of w pr opts =
     Join w [last (InFolders opts), Join w (Parts (Identifier pr))]"

definition outputFileName_of ::
  "('s, 'c, 'v) world \<Rightarrow> 'c Requirement \<Rightarrow> ('s, 'c, 'v) InstallOptions \<Rightarrow> 's FileChecksum
   \<Rightarrow> string" where
  "outputFileName_of w pr opts checksum =
     Join w [outputFolder_of w pr opts,
             TrimSuffix (FC_Filename checksum) (filepath_Ext (FC_Filename checksum))]"

text \<open>The canonical filename, following the words of the specification (section 4.1):
  the prefix \<open>packer-plugin-\<close>TYPE\<open>_\<close>, then version, protocol, operating system and
  architecture joined by \<open>_\<close>, then \<open>.\<close>EXT unless the extension is empty.\<close>

definition canonical_filename ::
  "string \<Rightarrow> string \<Rightarrow> string \<Rightarrow> string \<Rightarrow> string \<Rightarrow> string \<Rightarrow> string" where
  "canonical_filename typ ver prot sys cpu extension =
     ''packer-plugin-'' @ typ @ ''_'' @ ver @ ''_'' @ prot @ ''_'' @ sys @ ''_'' @ cpu
     @ (if extension = [] then [] else ''.'' @ extension)"

section \<open>Example inputs\<close>

text \<open>
  A small concrete world for evaluating the functions: the file system is a list of
  files (path and content); a version is its list of numbers; an index is a list of
  versions separated by commas; a manifest is a list of \<open>filename=checksum\<close> separated
  by commas; an archive is \<open>name:content\<close>, one entry; the digest of the only
  checksummer is the length of the data, one byte, written in hexadecimal; a glob
  pattern has one star, which matches within one path element.
\<close>

text \<open>A host that speaks protocol 5.1, with no checksummer.\<close>

definition host_5_1 :: "unit BinaryInstallationOptions" where
  "host_5_1 = \<lparr>APIVersionMajor = ''5'', APIVersionMinor = ''1'', OS = ''linux'',
               ARCH = ''amd64'', Ext = [], Checksummers = []\<rparr>"

type_synonym fs = "(string \<times> bytes) list"

definition fs_write :: "string \<Rightarrow> bytes \<Rightarrow> fs \<Rightarrow> fs" where
  "fs_write p b s = (p, b) # filter (\<lambda>(q, c). q \<noteq> p) s"

definition glob_star :: "string \<Rightarrow> string \<Rightarrow> bool" where
  "glob_star pat name =
     (case SplitN pat CHR ''*'' 2 of
        [pre, suf] \<Rightarrow> prefix pre name \<and> suffix suf name
                      \<and> length pre + length suf \<le> length name
                      \<and> CHR ''/'' \<notin> set (take (length name - length pre - length suf)
                                            (drop (length pre) name))
      | _ \<Rightarrow> pat = name)"

definition ex_sum :: "bytes \<Rightarrow> bytes" where
  "ex_sum b = [char_of (length b)]"

definition ex_Sum :: "bytes \<Rightarrow> error + bytes" where
  "ex_Sum b = Inr (ex_sum b)"

definition ex_ParseChecksum :: "string \<Rightarrow> error + bytes" where
  "ex_ParseChecksum t = (if t = [] then Inl (External 1) else Inr t)"

definition ex_Checksum :: "bytes \<Rightarrow> bytes \<Rightarrow> error option" where
  "ex_Checksum expected b =
     (if hex_EncodeToString (ex_sum b) = expected then None else Some (External 2))"

definition ex_ChecksumFile :: "bytes \<Rightarrow> string \<Rightarrow> fs \<Rightarrow> error option" where
  "ex_ChecksumFile expected p s =
     (case map_of s p of
        None \<Rightarrow> Some (External 3)
      | Some b \<Rightarrow> ex_Checksum expected b)"

definition ex_GetChecksumOfFile :: "string \<Rightarrow> fs \<Rightarrow> error + bytes" where
  "ex_GetChecksumOfFile p s =
     (case map_of s (p @ ''.len8'') of None \<Rightarrow> Inl (External 3) | Some t \<Rightarrow> Inr t)"

definition ex_checksummer :: "fs Checksummer" where
  "ex_checksummer =
     \<lparr>Checksummer_Type = ''len8'', FileExt = ''.len8'', Sum = ex_Sum,
      ParseChecksum = ex_ParseChecksum, Checksum = ex_Checksum,
      ChecksumFile = ex_ChecksumFile, GetChecksumOfFile = ex_GetChecksumOfFile\<rparr>"

definition ex_NewVersion :: "string \<Rightarrow> error + nat list" where
  "ex_NewVersion t =
     (let ps = Split (TrimPrefix t ''v'') CHR ''.''
      in if list_all (\<lambda>p. p \<noteq> [] \<and> list_all is_digit p) ps
         then Inr (map digits_val ps) else Inl (External 4))"

definition ex_Check :: "(nat list \<Rightarrow> bool) \<Rightarrow> nat list \<Rightarrow> bool" where
  "ex_Check c v = c v"

definition ex_Version_String :: "nat list \<Rightarrow> string" where
  "ex_Version_String v =
     concat (map (\<lambda>n. [char_of (48 + n)]) (take 1 v)
             @ map (\<lambda>n. [CHR ''.'', char_of (48 + n)]) (drop 1 v))"

definition ex_LessThan :: "nat list \<Rightarrow> nat list \<Rightarrow> bool" where
  "ex_LessThan a b = (a < b)"

definition ex_Sort_Reverse :: "nat list list \<Rightarrow> nat list list" where
  "ex_Sort_Reverse vs = rev (sort vs)"

definition ex_DecodeReleases :: "stream \<Rightarrow> error + Release list" where
  "ex_DecodeReleases f =
     (case snd f of Some err \<Rightarrow> Inl err
      | None \<Rightarrow> Inr (map Release (Split (fst f) CHR '','')))"

definition ex_DecodeEntries :: "stream \<Rightarrow> error + (string \<times> string) list" where
  "ex_DecodeEntries f =
     (case snd f of Some err \<Rightarrow> Inl err
      | None \<Rightarrow> Inr (map (\<lambda>l. (hd (SplitN l CHR ''='' 2), last (SplitN l CHR ''='' 2)))
                       (Split (fst f) CHR '','')))"

definition ex_Join :: "string list \<Rightarrow> string" where
  "ex_Join ps = concat (take 1 ps @ map (\<lambda>p. CHR ''/'' # p) (drop 1 ps))"

definition ex_Dir :: "string \<Rightarrow> string" where
  "ex_Dir p = rev (drop 1 (dropWhile (\<lambda>c. c \<noteq> CHR ''/'') (rev p)))"

definition ex_Glob :: "string \<Rightarrow> fs \<Rightarrow> error + string list" where
  "ex_Glob pat s = Inr (filter (glob_star pat) (map fst s))"

definition ex_ZipReader :: "bytes \<Rightarrow> error + (string \<times> (error + stream)) list" where
  "ex_ZipReader z =
     (case SplitN z CHR '':'' 2 of
        [n, c] \<Rightarrow> Inr [(n, Inr (c, None))]
      | _ \<Rightarrow> Inl (External 5))"

definition ex_ok :: "fs \<Rightarrow> error option \<times> fs" where
  "ex_ok s = (None, s)"

definition ex_ok1 :: "string \<Rightarrow> fs \<Rightarrow> error option \<times> fs" where
  "ex_ok1 p s = (None, s)"

definition ex_no_error :: "fs \<Rightarrow> error option" where
  "ex_no_error s = None"

definition ex_no_error1 :: "string \<Rightarrow> fs \<Rightarrow> error option" where
  "ex_no_error1 p s = None"

definition ex_OpenFile :: "string \<Rightarrow> fs \<Rightarrow> error option \<times> fs" where
  "ex_OpenFile p s = (None, fs_write p [] s)"

definition ex_WriteFile :: "string \<Rightarrow> bytes \<Rightarrow> fs \<Rightarrow> error option \<times> fs" where
  "ex_WriteFile p b s = (None, fs_write p b s)"

definition ex_world :: "(fs, nat list \<Rightarrow> bool, nat list) world" where
  "ex_world =
     \<lparr>NewVersion = ex_NewVersion, Check = ex_Check, Version_String = ex_Version_String,
      LessThan = ex_LessThan, Sort_Reverse = ex_Sort_Reverse, DecodeReleases = ex_DecodeReleases,
      DecodeEntries = ex_DecodeEntries, Join = ex_Join, Dir = ex_Dir, Glob = ex_Glob,
      ZipReader = ex_ZipReader, MkdirAll = ex_ok1, TempFile = ex_ok, WriteTemp = ex_ok1,
      SeekTemp = ex_no_error, TruncateTemp = ex_ok, StatTemp = ex_no_error,
      OpenFile = ex_OpenFile, WriteOpen = ex_WriteFile, SeekOpen = ex_no_error1,
      WriteFile = ex_WriteFile\<rparr>"

definition any_version :: "nat list \<Rightarrow> bool" where
  "any_version v = True"

definition foo_requirement :: "(nat list \<Rightarrow> bool) Requirement" where
  "foo_requirement =
     \<lparr>Accessor = ''foo'',
      Identifier = \<lparr>Hostname = ''github.com'', Namespace = ''ex'', Type = ''foo''\<rparr>,
      VersionConstraints = any_version\<rparr>"

definition host_5_0 :: "fs BinaryInstallationOptions" where
  "host_5_0 = \<lparr>APIVersionMajor = ''5'', APIVersionMinor = ''0'', OS = ''linux'',
               ARCH = ''amd64'', Ext = [], Checksummers = [ex_checksummer]\<rparr>"

definition list_opts :: "fs ListInstallationsOptions" where
  "list_opts = \<lparr>FromFolders = [''/plugins''], List_BinOpts = host_5_0\<rparr>"

type_synonym ex_GetOptions = "(fs, nat list \<Rightarrow> bool, nat list) GetOptions"

text \<open>A release source: an index of two releases, a manifest with the digest of each
  archive, and the archive of the version asked for, holding the binary \<open>B\<close>.\<close>

definition ex_archive :: "ex_GetOptions \<Rightarrow> bytes" where
  "ex_archive opts =
     (case version opts of
        None \<Rightarrow> []
      | Some v \<Rightarrow> ''packer-plugin-foo_v'' @ ex_Version_String v @ ''_x5.0_linux_amd64:B'')"

definition ex_manifest :: bytes where
  "ex_manifest = ''packer-plugin-foo_v1.0.0_x5.0_linux_amd64.zip=2b,packer-plugin-foo_v2.0.0_x5.0_linux_amd64.zip=2b''"

definition good_getter :: "string \<Rightarrow> ex_GetOptions \<Rightarrow> error + stream" where
  "good_getter what opts =
     (if what = ''releases'' then Inr (''1.0.0,2.0.0'', None)
      else if what = ''len8'' then Inr (ex_manifest, None)
      else if what = ''zip'' then Inr (ex_archive opts, None)
      else Inl (External 9))"

text \<open>A source whose archive download fails, one whose manifest download fails, one
  whose index lists a malformed version, and one whose index lists a version twice and
  has no archive.\<close>

definition no_zip_getter :: "string \<Rightarrow> ex_GetOptions \<Rightarrow> error + stream" where
  "no_zip_getter what opts =
     (if what = ''zip'' then Inl (External 7) else good_getter what opts)"

definition no_manifest_getter :: "string \<Rightarrow> ex_GetOptions \<Rightarrow> error + stream" where
  "no_manifest_getter what opts =
     (if what = ''len8'' then Inl (External 6) else good_getter what opts)"

definition bad_release_getter :: "string \<Rightarrow> ex_GetOptions \<Rightarrow> error + stream" where
  "bad_release_getter what opts =
     (if what = ''releases'' then Inr (''1.0.0,latest'', None) else good_getter what opts)"

definition twice_getter :: "string \<Rightarrow> ex_GetOptions \<Rightarrow> error + stream" where
  "twice_getter what opts =
     (if what = ''releases'' then Inr (''1.0.0,1.0.0'', None) else no_zip_getter what opts)"

definition install_opts ::
  "(string \<Rightarrow> ex_GetOptions \<Rightarrow> error + stream) list \<Rightarrow> string list
   \<Rightarrow> (fs, nat list \<Rightarrow> bool, nat list) InstallOptions" where
  "install_opts gs folders = \<lparr>Getters = gs, InFolders = folders, Install_BinOpts = host_5_0\<rparr>"

text \<open>A manifest entry as the decoder leaves it, and the options of two requests: for
  version 1.0.0 of a plugin of type \<open>vsphere\<close>, and of the plugin \<open>foo\<close>.\<close>

definition manifest_entry :: "string \<Rightarrow> string \<Rightarrow> ChecksumFileEntry" where
  "manifest_entry name cs =
     \<lparr>Filename = name, Checksum_field = cs, ext = [], binVersion = [], os = [], arch = [],
      protVersion = []\<rparr>"

definition vsphere_GetOptions :: ex_GetOptions where
  "vsphere_GetOptions =
     \<lparr>PluginRequirement =
        \<lparr>Accessor = ''vsphere'',
         Identifier = \<lparr>Hostname = ''github.com'', Namespace = ''hashicorp'',
                       Type = ''vsphere''\<rparr>,
         VersionConstraints = any_version\<rparr>,
      Get_BinOpts = host_5_0, version = Some [1, 0, 0]\<rparr>"

definition foo_GetOptions :: ex_GetOptions where
  "foo_GetOptions =
     \<lparr>PluginRequirement = foo_requirement, Get_BinOpts = host_5_0, version = Some [1, 0, 0]\<rparr>"

text \<open>A source that has the archive of version 1.0.0 only.\<close>

definition only_v1_getter :: "string \<Rightarrow> ex_GetOptions \<Rightarrow> error + stream" where
  "only_v1_getter what opts =
     (if what = ''zip'' \<and> version opts \<noteq> Some [1, 0, 0] then Inl (External 8)
      else good_getter what opts)"

text \<open>The file system after the installation of version 2.0.0, and after that of
  version 1.0.0; a folder with two binaries, the second without a sidecar.\<close>

definition installed_fs :: fs where
  "installed_fs =
     [(''/plugins/github.com/ex/foo/packer-plugin-foo_v2.0.0_x5.0_linux_amd64.len8'', ''01''),
      (''/plugins/github.com/ex/foo/packer-plugin-foo_v2.0.0_x5.0_linux_amd64'', ''B'')]"

definition v2_Installation :: Installation where
  "v2_Installation =
     \<lparr>BinaryPath = ''/plugins/github.com/ex/foo/packer-plugin-foo_v2.0.0_x5.0_linux_amd64'',
      Version = ''v2.0.0''\<rparr>"

definition v1_Installation :: Installation where
  "v1_Installation =
     \<lparr>BinaryPath = ''/plugins/github.com/ex/foo/packer-plugin-foo_v1.0.0_x5.0_linux_amd64'',
      Version = ''v1.0.0''\<rparr>"

definition installed_v1_fs :: fs where
  "installed_v1_fs =
     [(''/plugins/github.com/ex/foo/packer-plugin-foo_v1.0.0_x5.0_linux_amd64.len8'', ''01''),
      (''/plugins/github.com/ex/foo/packer-plugin-foo_v1.0.0_x5.0_linux_amd64'', ''B'')]"

definition two_binaries_fs :: fs where
  "two_binaries_fs =
     [(''/plugins/github.com/ex/foo/packer-plugin-foo_v1.2.3_x5.0_linux_amd64'', ''B''),
      (''/plugins/github.com/ex/foo/packer-plugin-foo_v1.2.3_x5.0_linux_amd64.len8'', ''01''),
      (''/plugins/github.com/ex/foo/packer-plugin-foo_v1.2.4_x5.0_linux_amd64'', ''B'')]"

text \<open>A host whose MINOR is beyond the range of \<^verbatim>\<open>int\<close>.\<close>

definition host_5_huge :: "unit BinaryInstallationOptions" where
  "host_5_huge = \<lparr>APIVersionMajor = ''5'', APIVersionMinor = ''99999999999999999999'',
                  OS = ''linux'', ARCH = ''amd64'', Ext = [], Checksummers = []\<rparr>"

text \<open>The example world with a sidecar that cannot be written, and the example world
  with temporary files that stay in the file system; the states they leave.\<close>

definition ex_WriteFile_fails :: "string \<Rightarrow> bytes \<Rightarrow> fs \<Rightarrow> error option \<times> fs" where
  "ex_WriteFile_fails p b s = (Some (External 10), s)"

definition no_sidecar_world :: "(fs, nat list \<Rightarrow> bool, nat list) world" where
  "no_sidecar_world = ex_world\<lparr>WriteFile := ex_WriteFile_fails\<rparr>"

definition ex_TempFile :: "fs \<Rightarrow> error option \<times> fs" where
  "ex_TempFile s =
     (None, (''/tmp/packer-plugin-'' @ replicate (Suc (length s)) CHR ''0'' @ ''.zip'', []) # s)"

definition temp_world :: "(fs, nat list \<Rightarrow> bool, nat list) world" where
  "temp_world = ex_world\<lparr>TempFile := ex_TempFile\<rparr>"

definition binary_only_fs :: fs where
  "binary_only_fs =
     [(''/plugins/github.com/ex/foo/packer-plugin-foo_v2.0.0_x5.0_linux_amd64'', ''B'')]"

definition installed_v1_temp_fs :: fs where
  "installed_v1_temp_fs =
     [(''/plugins/github.com/ex/foo/packer-plugin-foo_v1.0.0_x5.0_linux_amd64.len8'', ''01''),
      (''/plugins/github.com/ex/foo/packer-plugin-foo_v1.0.0_x5.0_linux_amd64'', ''B''),
      (''/tmp/packer-plugin-00.zip'', []), (''/tmp/packer-plugin-0.zip'', [])]"

text \<open>A checksummer whose sidecar digests are empty and that accepts every file, and
  the options of an installation with it.\<close>

definition ex_GetChecksumOfFile_empty :: "string \<Rightarrow> fs \<Rightarrow> error + bytes" where
  "ex_GetChecksumOfFile_empty p s = Inr []"

definition ex_ChecksumFile_accepts :: "bytes \<Rightarrow> string \<Rightarrow> fs \<Rightarrow> error option" where
  "ex_ChecksumFile_accepts expected p s = None"

definition trusting_checksummer :: "fs Checksummer" where
  "trusting_checksummer =
     ex_checksummer\<lparr>ChecksumFile := ex_ChecksumFile_accepts,
                    GetChecksumOfFile := ex_GetChecksumOfFile_empty\<rparr>"

definition trusting_opts :: "(fs, nat list \<Rightarrow> bool, nat list) InstallOptions" where
  "trusting_opts =
     \<lparr>Getters = [good_getter], InFolders = [''/plugins''],
      Install_BinOpts = host_5_0\<lparr>Checksummers := [trusting_checksummer]\<rparr>\<rparr>"

section \<open>Properties\<close>

subsection \<open>The sorted, duplicate-free installation list\<close>

declare Search_loop.simps [simp del]

lemma Search_loop_least:
  "\<forall>a b. a \<le> b \<and> b < n \<and> f a \<longrightarrow> f b \<Longrightarrow> i \<le> j \<Longrightarrow> j \<le> n
   \<Longrightarrow> \<forall>k < i. \<not> f k \<Longrightarrow> \<forall>k. j \<le> k \<and> k < n \<longrightarrow> f k
   \<Longrightarrow> Search_loop f i j \<le> n \<and> (\<forall>k < Search_loop f i j. \<not> f k)
       \<and> (\<forall>k. Search_loop f i j \<le> k \<and> k < n \<longrightarrow> f k)"
proof (induction f i j rule: Search_loop.induct)
  case (1 f i j)
  note mono = "1.prems"(1)
  show ?case
  proof (cases "i < j")
    case False
    have "Search_loop f i j = i"
      using False by (simp add: Search_loop.simps [of f i j])
    moreover from False "1.prems"(2) have "i = j" by simp
    ultimately show ?thesis using "1.prems"(3-) by simp
  next
    case True
    define h where "h = (i + j) div 2"
    have hb: "i \<le> h" "h < j" using True by (auto simp: h_def)
    show ?thesis
    proof (cases "f h")
      case False
      have nf: "\<forall>k < h + 1. \<not> f k"
      proof (intro allI impI notI)
        fix k assume "k < h + 1" "f k"
        moreover have "k \<le> h" "h < n" using \<open>k < h + 1\<close> hb "1.prems"(3) by auto
        ultimately have "f h" using mono by blast
        with False show False by simp
      qed
      have "Search_loop f i j = Search_loop f (h + 1) j"
        using True False by (simp add: Search_loop.simps [of f i j] h_def Let_def)
      moreover have "Search_loop f (h + 1) j \<le> n \<and> (\<forall>k < Search_loop f (h + 1) j. \<not> f k)
       \<and> (\<forall>k. Search_loop f (h + 1) j \<le> k \<and> k < n \<longrightarrow> f k)"
      proof (rule "1.IH"(1) [OF True h_def False mono _ _ nf])
        show "h + 1 \<le> j" using hb by simp
        show "j \<le> n" using "1.prems"(3) by simp
        show "\<forall>k. j \<le> k \<and> k < n \<longrightarrow> f k" using "1.prems"(5) by simp
      qed
      ultimately show ?thesis by simp
    next
      case fh: True
      have ff: "\<forall>k. h \<le> k \<and> k < n \<longrightarrow> f k"
        using mono fh by blast
      have "Search_loop f i j = Search_loop f i h"
        using True fh by (simp add: Search_loop.simps [of f i j] h_def Let_def)
      moreover have "Search_loop f i h \<le> n \<and> (\<forall>k < Search_loop f i h. \<not> f k)
       \<and> (\<forall>k. Search_loop f i h \<le> k \<and> k < n \<longrightarrow> f k)"
      proof (rule "1.IH"(2) [OF True h_def _ mono _ _ _ ff])
        show "\<not> \<not> f h" using fh by simp
        show "i \<le> h" using hb by simp
        show "h \<le> n" using hb "1.prems"(3) by simp
        show "\<forall>k < i. \<not> f k" using "1.prems"(4) by simp
      qed
      ultimately show ?thesis by simp
    qed
  qed
qed

lemma sorted_versions_nth:
  "sorted_wrt (<) (map Version l) \<Longrightarrow> a \<le> b \<Longrightarrow> b < length l
   \<Longrightarrow> Version (l ! a) \<le> Version (l ! b)"
proof -
  assume s: "sorted_wrt (<) (map Version l)" and ab: "a \<le> b" "b < length l"
  show ?thesis
  proof (cases "a = b")
    case True then show ?thesis by simp
  next
    case False
    with ab have "a < b" by simp
    with s ab have "map Version l ! a < map Version l ! b"
      by (simp add: sorted_wrt_iff_nth_less)
    with ab show ?thesis by simp
  qed
qed

lemma Search_versions:
  fixes v :: string
  assumes s: "sorted_wrt (<) (map Version l)"
  defines "pos \<equiv> Search (length l) (\<lambda>i. Version (l ! i) \<ge> v)"
  shows "pos \<le> length l"
    and "\<And>k. k < pos \<Longrightarrow> Version (l ! k) < v"
    and "\<And>k. pos \<le> k \<Longrightarrow> k < length l \<Longrightarrow> v \<le> Version (l ! k)"
proof -
  have mono: "\<And>a b. a \<le> b \<Longrightarrow> b < length l \<Longrightarrow> v \<le> Version (l ! a) \<Longrightarrow> v \<le> Version (l ! b)"
    using sorted_versions_nth [OF s] by (meson order_trans)
  have "Search_loop (\<lambda>i. Version (l ! i) \<ge> v) 0 (length l) \<le> length l
     \<and> (\<forall>k < Search_loop (\<lambda>i. Version (l ! i) \<ge> v) 0 (length l). \<not> v \<le> Version (l ! k))
     \<and> (\<forall>k. Search_loop (\<lambda>i. Version (l ! i) \<ge> v) 0 (length l) \<le> k \<and> k < length l
            \<longrightarrow> v \<le> Version (l ! k))"
  proof (rule Search_loop_least [where n = "length l"])
    show "\<forall>a b. a \<le> b \<and> b < length l \<and> v \<le> Version (l ! a) \<longrightarrow> v \<le> Version (l ! b)"
      using mono by blast
    show "\<forall>k. length l \<le> k \<and> k < length l \<longrightarrow> v \<le> Version (l ! k)"
    proof (intro allI impI)
      fix k assume "length l \<le> k \<and> k < length l"
      then have False by linarith
      then show "v \<le> Version (l ! k)" ..
    qed
  qed simp_all
  then have A: "pos \<le> length l"
    and B: "\<forall>k < pos. \<not> v \<le> Version (l ! k)"
    and C: "\<forall>k. pos \<le> k \<and> k < length l \<longrightarrow> v \<le> Version (l ! k)"
    unfolding pos_def Search_def by blast+
  show "pos \<le> length l" by (rule A)
  show "\<And>k. k < pos \<Longrightarrow> Version (l ! k) < v"
    using B not_le by blast
  show "\<And>k. pos \<le> k \<Longrightarrow> k < length l \<Longrightarrow> v \<le> Version (l ! k)"
    using C by blast
qed

lemma InsertSortedUniq_sorted:
  assumes s: "sorted_wrt (<) (map Version l)"
  shows "sorted_wrt (<) (map Version (InsertSortedUniq l install))"
proof -
  define v where "v = Version install"
  define pos where "pos = Search (length l) (\<lambda>i. Version (l ! i) \<ge> v)"
  note P = Search_versions [OF s, where v = v, folded pos_def]
  show ?thesis
  proof (cases "length l > pos \<and> Version (l ! pos) = v")
    case True
    then show ?thesis using s by (simp add: InsertSortedUniq_def Let_def v_def pos_def)
  next
    case False
    have eq: "InsertSortedUniq l install = take pos l @ [install] @ drop pos l"
      using False by (auto simp: InsertSortedUniq_def Let_def v_def pos_def)
    have lo: "\<forall>x \<in> set (take pos l). Version x < v"
      using P(1,2) by (auto simp: in_set_conv_nth)
    have hi: "\<forall>x \<in> set (drop pos l). v < Version x"
    proof
      fix x assume "x \<in> set (drop pos l)"
      then obtain k where k: "k < length l - pos" "x = l ! (pos + k)"
        by (auto simp: in_set_conv_nth)
      then have ge: "v \<le> Version (l ! pos)" using P(3) [of pos] by simp
      have "pos < length l" using k by simp
      with False have "Version (l ! pos) \<noteq> v" by simp
      with ge have "v < Version (l ! pos)" by simp
      moreover have "Version (l ! pos) \<le> Version (l ! (pos + k))"
        using sorted_versions_nth [OF s, of pos "pos + k"] k by simp
      ultimately show "v < Version x" using k by simp
    qed
    have s1: "sorted_wrt (<) (map Version (take pos l))"
      using s by (simp add: take_map [symmetric] sorted_wrt_take)
    have s2: "sorted_wrt (<) (map Version (drop pos l))"
      using s by (simp add: drop_map [symmetric] sorted_wrt_drop)
    show ?thesis
      unfolding eq using lo hi s1 s2
      by (fastforce simp: sorted_wrt_append v_def intro: less_trans)
  qed
qed

lemma InsertSortedUniq_present:
  assumes s: "sorted_wrt (<) (map Version l)"
    and "Version install \<in> set (map Version l)"
  shows "InsertSortedUniq l install = l"
proof -
  define v where "v = Version install"
  define pos where "pos = Search (length l) (\<lambda>i. Version (l ! i) \<ge> v)"
  note P = Search_versions [OF s, where v = v, folded pos_def]
  from assms(2) obtain k where k: "k < length l" "Version (l ! k) = v"
    by (auto simp: in_set_conv_nth v_def)
  have "pos \<le> k" using P(2) [of k] k by (cases "k < pos") auto
  then have "v \<le> Version (l ! pos)" "pos < length l" using P(3) [of pos] k by auto
  moreover have "Version (l ! pos) \<le> v"
    using sorted_versions_nth [OF s \<open>pos \<le> k\<close> k(1)] k by simp
  ultimately show ?thesis
    by (simp add: InsertSortedUniq_def Let_def v_def pos_def)
qed


lemma InsertSortedUniq_absent:
  assumes s: "sorted_wrt (<) (map Version l)"
    and "Version install \<notin> set (map Version l)"
  shows "\<exists>pos \<le> length l. InsertSortedUniq l install = take pos l @ [install] @ drop pos l"
proof -
  define pos where "pos = Search (length l) (\<lambda>i. Version (l ! i) \<ge> Version install)"
  have le: "pos \<le> length l"
    using Search_versions(1) [OF s, where v = "Version install"] by (simp add: pos_def)
  have "\<not> (length l > pos \<and> Version (l ! pos) = Version install)"
  proof
    assume a: "length l > pos \<and> Version (l ! pos) = Version install"
    then have "l ! pos \<in> set l" by simp
    then have "Version (l ! pos) \<in> set (map Version l)" by simp
    with a assms(2) show False by simp
  qed
  then have "InsertSortedUniq l install = take pos l @ [install] @ drop pos l"
    by (auto simp: InsertSortedUniq_def Let_def pos_def)
  with le show ?thesis by blast
qed

lemma InsertSortedUniq_set:
  assumes s: "sorted_wrt (<) (map Version l)"
  shows "set (InsertSortedUniq l install) =
         (if Version install \<in> set (map Version l) then set l else insert install (set l))"
proof (cases "Version install \<in> set (map Version l)")
  case True
  then show ?thesis using InsertSortedUniq_present [OF s] by simp
next
  case False
  from InsertSortedUniq_absent [OF s False] obtain pos where
    "InsertSortedUniq l install = take pos l @ [install] @ drop pos l" by blast
  then have "set (InsertSortedUniq l install) = (set (take pos l) \<union> set (drop pos l)) \<union> {install}"
    by auto
  moreover have "set (take pos l) \<union> set (drop pos l) = set l"
    by (metis append_take_drop_id set_append)
  ultimately show ?thesis using False by simp
qed

lemma find_append:
  "find P (xs @ ys) = (case find P xs of None \<Rightarrow> find P ys | Some x \<Rightarrow> Some x)"
  by (induction xs) auto

lemma foldl_InsertSortedUniq_inv:
  "sorted_wrt (<) (map Version (foldl InsertSortedUniq [] xs))
   \<and> Version ` set (foldl InsertSortedUniq [] xs) = Version ` set xs
   \<and> (\<forall>inst \<in> set (foldl InsertSortedUniq [] xs).
         find (\<lambda>x. Version x = Version inst) xs = Some inst)"
proof (induction xs rule: rev_induct)
  case Nil
  show ?case by simp
next
  case (snoc x xs)
  define l where "l = foldl InsertSortedUniq [] xs"
  from snoc have s: "sorted_wrt (<) (map Version l)"
    and vs: "Version ` set l = Version ` set xs"
    and first: "\<forall>inst \<in> set l. find (\<lambda>x. Version x = Version inst) xs = Some inst"
    by (simp_all add: l_def)
  have step: "foldl InsertSortedUniq [] (xs @ [x]) = InsertSortedUniq l x"
    by (simp add: l_def)
  have A: "sorted_wrt (<) (map Version (InsertSortedUniq l x))"
    by (rule InsertSortedUniq_sorted [OF s])
  have S: "set (InsertSortedUniq l x) =
           (if Version x \<in> set (map Version l) then set l else insert x (set l))"
    by (rule InsertSortedUniq_set [OF s])
  have B: "Version ` set (InsertSortedUniq l x) = Version ` set (xs @ [x])"
    using vs by (auto simp: S)
  have C: "\<forall>inst \<in> set (InsertSortedUniq l x).
             find (\<lambda>y. Version y = Version inst) (xs @ [x]) = Some inst"
  proof
    fix inst assume i: "inst \<in> set (InsertSortedUniq l x)"
    show "find (\<lambda>y. Version y = Version inst) (xs @ [x]) = Some inst"
    proof (cases "inst \<in> set l")
      case True
      with first have "find (\<lambda>y. Version y = Version inst) xs = Some inst" by blast
      then show ?thesis by (simp add: find_append)
    next
      case False
      with i have ix: "inst = x" and nv: "Version x \<notin> set (map Version l)"
        by (auto simp: S split: if_splits)
      from nv vs have "Version x \<notin> Version ` set xs" by simp
      then have "\<forall>y \<in> set xs. Version y \<noteq> Version x" by (metis imageI)
      then have "find (\<lambda>y. Version y = Version x) xs = None"
        by (simp add: find_None_iff)
      then show ?thesis by (simp add: find_append ix)
    qed
  qed
  show ?case unfolding step using A B C by blast
qed

text \<open>
  Claim C6. After any sequence of \<open>InsertSortedUniq\<close> calls starting from the empty
  list (the list \<open>foldl InsertSortedUniq [] xs\<close>), the versions of the list are
  strictly ascending in the byte-wise lexicographic order of strings, no version occurs
  twice, inserting an installation whose version is present leaves the list unchanged,
  and every installation of the list is the first one inserted with its version.
\<close>

theorem C6_InsertSortedUniq_sorted_unique:
  "sorted_wrt (<) (map Version (foldl InsertSortedUniq [] xs))
   \<and> distinct (map Version (foldl InsertSortedUniq [] xs))
   \<and> (Version install \<in> set (map Version (foldl InsertSortedUniq [] xs))
        \<longrightarrow> InsertSortedUniq (foldl InsertSortedUniq [] xs) install
            = foldl InsertSortedUniq [] xs)
   \<and> (\<forall>inst \<in> set (foldl InsertSortedUniq [] xs).
         find (\<lambda>x. Version x = Version inst) xs = Some inst)"
proof -
  define l where "l = foldl InsertSortedUniq [] xs"
  have s: "sorted_wrt (<) (map Version l)"
    and first: "\<forall>inst \<in> set l. find (\<lambda>x. Version x = Version inst) xs = Some inst"
    using foldl_InsertSortedUniq_inv [of xs] by (simp_all add: l_def)
  have d: "distinct (map Version l)"
    using s strict_sorted_iff by blast
  have p: "Version install \<in> set (map Version l) \<longrightarrow> InsertSortedUniq l install = l"
    using InsertSortedUniq_present [OF s] by blast
  show ?thesis using s d p first unfolding l_def by blast
qed

theorem C6_witness:
  "Version \<lparr>BinaryPath = ''/c/p'', Version = ''v1.0.0''\<rparr>
     \<in> set (map Version (foldl InsertSortedUniq []
          [\<lparr>BinaryPath = ''/a/p'', Version = ''v2.0.0''\<rparr>,
           \<lparr>BinaryPath = ''/b/p'', Version = ''v1.0.0''\<rparr>]))
   \<and> InsertSortedUniq (foldl InsertSortedUniq []
          [\<lparr>BinaryPath = ''/a/p'', Version = ''v2.0.0''\<rparr>,
           \<lparr>BinaryPath = ''/b/p'', Version = ''v1.0.0''\<rparr>])
        \<lparr>BinaryPath = ''/c/p'', Version = ''v1.0.0''\<rparr>
      = [\<lparr>BinaryPath = ''/b/p'', Version = ''v1.0.0''\<rparr>,
         \<lparr>BinaryPath = ''/a/p'', Version = ''v2.0.0''\<rparr>]
   \<and> find (\<lambda>x. Version x = ''v2.0.0'')
          [\<lparr>BinaryPath = ''/a/p'', Version = ''v2.0.0''\<rparr>,
           \<lparr>BinaryPath = ''/b/p'', Version = ''v1.0.0''\<rparr>]
      = Some \<lparr>BinaryPath = ''/a/p'', Version = ''v2.0.0''\<rparr>"
proof -
  have e: "foldl InsertSortedUniq []
          [\<lparr>BinaryPath = ''/a/p'', Version = ''v2.0.0''\<rparr>,
           \<lparr>BinaryPath = ''/b/p'', Version = ''v1.0.0''\<rparr>]
      = [\<lparr>BinaryPath = ''/b/p'', Version = ''v1.0.0''\<rparr>,
         \<lparr>BinaryPath = ''/a/p'', Version = ''v2.0.0''\<rparr>]"
    by code_simp
  show ?thesis
    using C6_InsertSortedUniq_sorted_unique
      [where install = "\<lparr>BinaryPath = ''/c/p'', Version = ''v1.0.0''\<rparr>"
         and xs = "[\<lparr>BinaryPath = ''/a/p'', Version = ''v2.0.0''\<rparr>,
            \<lparr>BinaryPath = ''/b/p'', Version = ''v1.0.0''\<rparr>]"]
    unfolding e by simp
qed

subsection \<open>Protocol compatibility\<close>

lemma Split_no_sep: "sep \<notin> set a \<Longrightarrow> Split a sep = [a]"
  by (induction a) auto

lemma Split_at_sep: "sep \<notin> set a \<Longrightarrow> Split (a @ sep # b) sep = a # Split b sep"
  by (induction a) auto

lemma TrimPrefix_append: "TrimPrefix (p @ s) p = s"
  by (simp add: TrimPrefix_def)

lemma is_digit_not_dot: "is_digit c \<Longrightarrow> c \<noteq> CHR ''.''"
  by (auto simp: is_digit_def)

lemma Atoi_no_dot:
  assumes "Atoi s = Inr v"
  shows "CHR ''.'' \<notin> set s"
proof -
  define ds where "ds = (if s \<noteq> [] \<and> (hd s = CHR ''-'' \<or> hd s = CHR ''+'') then tl s else s)"
  have d: "list_all is_digit ds"
    using assms by (auto simp: Atoi_def Let_def ds_def split: if_splits)
  then have nd: "CHR ''.'' \<notin> set ds"
    using is_digit_not_dot by (auto simp: list_all_iff)
  show ?thesis
  proof (cases "s \<noteq> [] \<and> (hd s = CHR ''-'' \<or> hd s = CHR ''+'')")
    case True
    then obtain c r where s: "s = c # r" "c = CHR ''-'' \<or> c = CHR ''+''"
      by (cases s) auto
    then have "ds = r" by (simp add: ds_def)
    with nd s show ?thesis by auto
  next
    case False
    then have "ds = s" unfolding ds_def by (simp only: if_False)
    with nd show ?thesis by simp
  qed
qed

lemma CheckProtocolVersion_shape:
  assumes "CHR ''.'' \<notin> set maj" and "CHR ''.'' \<notin> set mn"
  shows "CheckProtocolVersion binOpts (''x'' @ maj @ ''.'' @ mn) =
     (if maj \<noteq> APIVersionMajor binOpts then Some (UnsupportedMajor maj)
      else if mn = APIVersionMinor binOpts then None
      else (case Atoi mn of
              Inl err \<Rightarrow> Some err
            | Inr vMinori \<Rightarrow>
                (case Atoi (APIVersionMinor binOpts) of
                   Inl err \<Rightarrow> Some err
                 | Inr APIVersoinMinori \<Rightarrow>
                     if vMinori > APIVersoinMinori then Some (UnsupportedMinor mn)
                     else None)))"
proof -
  have t: "TrimPrefix (''x'' @ maj @ ''.'' @ mn) ''x'' = maj @ CHR ''.'' # mn"
    using TrimPrefix_append [of "''x''" "maj @ ''.'' @ mn"] by simp
  have sp: "Split (maj @ CHR ''.'' # mn) CHR ''.'' = [maj, mn]"
    using assms by (simp add: Split_at_sep Split_no_sep)
  have n0: "[maj, mn] ! 0 = maj" and n1: "[maj, mn] ! 1 = mn" by simp_all
  have l2: "\<not> length [maj, mn] < 2" by simp
  show ?thesis
    unfolding CheckProtocolVersion_def t Let_def sp n0 n1 using l2 by (simp only: if_False)
qed

lemma Split_not_empty: "Split s sep \<noteq> []"
  by (induction s) (auto split: list.splits)

lemma CheckProtocolVersion_major:
  assumes "CHR ''.'' \<notin> set maj" and "maj \<noteq> APIVersionMajor binOpts"
  shows "CheckProtocolVersion binOpts (''x'' @ maj @ ''.'' @ rest) = Some (UnsupportedMajor maj)"
proof -
  have t: "TrimPrefix (''x'' @ maj @ ''.'' @ rest) ''x'' = maj @ CHR ''.'' # rest"
    using TrimPrefix_append [of "''x''" "maj @ ''.'' @ rest"] by simp
  obtain p ps where r: "Split rest CHR ''.'' = p # ps"
    using Split_not_empty [of rest "CHR ''.''"] by (cases "Split rest CHR ''.''") auto
  have sp: "Split (maj @ CHR ''.'' # rest) CHR ''.'' = maj # p # ps"
    using assms(1) by (simp add: Split_at_sep r)
  have n0: "(maj # p # ps) ! 0 = maj" by simp
  have l2: "\<not> length (maj # p # ps) < 2" by simp
  show ?thesis
    unfolding CheckProtocolVersion_def t Let_def sp n0 using l2 assms(2) by simp
qed

text \<open>
  Claim C3, as amended. For every host and every remote protocol string
  \<open>x\<close>MAJOR\<open>.\<close>MINOR with numeric components, \<open>CheckProtocolVersion\<close> returns no
  error if and only if the remote MAJOR equals the host MAJOR as a string and the
  remote MINOR is at most the host MINOR, both as \<open>Atoi\<close> reads them. When the remote
  MAJOR equals the host MAJOR, a minor that is not numeric and differs from the host's
  minor string yields the error of \<open>Atoi\<close>, propagated. When the remote MAJOR differs
  from the host MAJOR, the error is the MAJOR mismatch, whatever the minor.
\<close>

theorem C3_CheckProtocolVersion:
  "(Atoi maj = Inr a \<and> Atoi mn = Inr b \<longrightarrow>
      (CheckProtocolVersion binOpts (''x'' @ maj @ ''.'' @ mn) = None
       \<longleftrightarrow> maj = APIVersionMajor binOpts
           \<and> (\<exists>c. Atoi (APIVersionMinor binOpts) = Inr c \<and> b \<le> c)))
   \<and> (CHR ''.'' \<notin> set maj \<and> CHR ''.'' \<notin> set mn \<and> maj = APIVersionMajor binOpts
        \<and> mn \<noteq> APIVersionMinor binOpts \<and> Atoi mn = Inl e
      \<longrightarrow> CheckProtocolVersion binOpts (''x'' @ maj @ ''.'' @ mn) = Some e)
   \<and> (CHR ''.'' \<notin> set maj \<and> maj \<noteq> APIVersionMajor binOpts
      \<longrightarrow> CheckProtocolVersion binOpts (''x'' @ maj @ ''.'' @ mn)
            = Some (UnsupportedMajor maj))"
proof (intro conjI impI)
  assume h: "Atoi maj = Inr a \<and> Atoi mn = Inr b"
  then have nd: "CHR ''.'' \<notin> set maj" "CHR ''.'' \<notin> set mn"
    using Atoi_no_dot by blast+
  show "CheckProtocolVersion binOpts (''x'' @ maj @ ''.'' @ mn) = None
       \<longleftrightarrow> maj = APIVersionMajor binOpts
           \<and> (\<exists>c. Atoi (APIVersionMinor binOpts) = Inr c \<and> b \<le> c)"
    unfolding CheckProtocolVersion_shape [OF nd]
    using h by (auto split: sum.splits)
next
  assume h: "CHR ''.'' \<notin> set maj \<and> CHR ''.'' \<notin> set mn \<and> maj = APIVersionMajor binOpts
        \<and> mn \<noteq> APIVersionMinor binOpts \<and> Atoi mn = Inl e"
  then have nd: "CHR ''.'' \<notin> set maj" "CHR ''.'' \<notin> set mn" by blast+
  from h have e: "maj = APIVersionMajor binOpts" "mn \<noteq> APIVersionMinor binOpts" "Atoi mn = Inl e"
    by blast+
  show "CheckProtocolVersion binOpts (''x'' @ maj @ ''.'' @ mn) = Some e"
    unfolding CheckProtocolVersion_shape [OF nd] by (simp add: e(2,3) e(1) [symmetric])
next
  assume h: "CHR ''.'' \<notin> set maj \<and> maj \<noteq> APIVersionMajor binOpts"
  then have "CHR ''.'' \<notin> set maj" "maj \<noteq> APIVersionMajor binOpts" by blast+
  then show "CheckProtocolVersion binOpts (''x'' @ maj @ ''.'' @ mn) = Some (UnsupportedMajor maj)"
    by (rule CheckProtocolVersion_major)
qed

lemma Atoi_examples:
  "Atoi ''5'' = Inr 5" "Atoi ''0'' = Inr 0" "Atoi ''1'' = Inr 1" "Atoi ''2'' = Inr 2"
  "Atoi ''abc'' = Inl (AtoiSyntax ''abc'')"
  by (simp_all add: Atoi_def Let_def is_digit_def digits_val_def)

lemma Atoi_more_examples:
  "Atoi ''05'' = Inr 5" "Atoi ''01'' = Inr 1" "Atoi ''6'' = Inr 6"
  "Atoi ''99999999999999999999'' = Inl (AtoiRange ''99999999999999999999'')"
  by (simp_all add: Atoi_def Let_def is_digit_def digits_val_def)

theorem C3_witness:
  "Atoi ''5'' = Inr 5 \<and> Atoi ''0'' = Inr 0
   \<and> CheckProtocolVersion host_5_1 ''x5.0'' = None
   \<and> ''5'' = APIVersionMajor host_5_1
   \<and> Atoi (APIVersionMinor host_5_1) = Inr 1 \<and> (0::int) \<le> 1
   \<and> Atoi ''01'' = Inr 1 \<and> CheckProtocolVersion host_5_1 ''x5.01'' = None
   \<and> Atoi ''2'' = Inr 2 \<and> CheckProtocolVersion host_5_1 ''x5.2'' \<noteq> None
   \<and> CHR ''.'' \<notin> set ''5'' \<and> CHR ''.'' \<notin> set ''abc'' \<and> ''abc'' \<noteq> APIVersionMinor host_5_1
   \<and> Atoi ''abc'' = Inl (AtoiSyntax ''abc'')
   \<and> CheckProtocolVersion host_5_1 ''x5.abc'' = Some (AtoiSyntax ''abc'')
   \<and> CHR ''.'' \<notin> set ''6'' \<and> ''6'' \<noteq> APIVersionMajor host_5_1
   \<and> CheckProtocolVersion host_5_1 ''x6.0'' = Some (UnsupportedMajor ''6'')"
  using C3_CheckProtocolVersion [where maj = "''5''" and a = 5 and mn = "''0''" and b = 0
          and binOpts = host_5_1]
        C3_CheckProtocolVersion [where maj = "''5''" and a = 5 and mn = "''01''" and b = 1
          and binOpts = host_5_1]
        C3_CheckProtocolVersion [where maj = "''5''" and a = 5 and mn = "''2''" and b = 2
          and binOpts = host_5_1]
        C3_CheckProtocolVersion [where maj = "''5''" and mn = "''abc''" and binOpts = host_5_1
          and e = "AtoiSyntax ''abc''"]
        C3_CheckProtocolVersion [where maj = "''6''" and mn = "''0''" and binOpts = host_5_1]
  by (simp add: Atoi_examples Atoi_more_examples host_5_1_def)

text \<open>
  The claim as stated fails in three places, for a host that speaks 5.1. With a
  different MAJOR the non-numeric minor \<open>abc\<close> gives the MAJOR mismatch, not a parse
  error. The MAJOR \<open>05\<close> is the number of the host's MAJOR \<open>5\<close> and the minor is the
  host's, yet the strings differ and the remote is refused. And for a host whose MINOR
  is too large for \<open>Atoi\<close>, the remote \<open>x5.0\<close>, of the same MAJOR and a smaller
  minor, is refused with the range error.
\<close>

theorem C3_counterexample:
  "Atoi ''abc'' = Inl (AtoiSyntax ''abc'') \<and> ''abc'' \<noteq> APIVersionMinor host_5_1
   \<and> CheckProtocolVersion host_5_1 ''x6.abc'' = Some (UnsupportedMajor ''6'')
   \<and> Atoi ''05'' = Inr 5 \<and> Atoi (APIVersionMajor host_5_1) = Inr 5
   \<and> Atoi ''1'' = Inr 1 \<and> Atoi (APIVersionMinor host_5_1) = Inr 1
   \<and> CheckProtocolVersion host_5_1 ''x05.1'' = Some (UnsupportedMajor ''05'')
   \<and> Atoi ''5'' = Inr 5 \<and> APIVersionMajor host_5_huge = ''5''
   \<and> Atoi ''0'' = Inr 0 \<and> APIVersionMinor host_5_huge = ''99999999999999999999''
   \<and> CheckProtocolVersion host_5_huge ''x5.0'' = Some (AtoiRange ''99999999999999999999'')"
  by (simp add: Atoi_examples Atoi_more_examples host_5_1_def host_5_huge_def
        CheckProtocolVersion_def TrimPrefix_def Let_def)

subsection \<open>Parsing the filename of a manifest entry\<close>

text \<open>
  Claim C4 (the code departs from it). \<open>init\<close> trims with the character sets of the
  prefix and of the extension (\<^verbatim>\<open>TrimLeft\<close>, \<^verbatim>\<open>TrimRight\<close>), not with the prefix and the
  extension themselves. For the type \<open>vsphere\<close> the prefix contains the letter \<open>v\<close>, and
  the canonical filename of version \<open>v1.0.0\<close> is parsed to the version \<open>1.0.0\<close>, which
  \<open>validate\<close> then rejects; with an empty extension the text after the last dot is taken
  for the extension and the filename is rejected as malformed. For the type \<open>foo\<close> and
  the extension \<open>zip\<close> the components are recovered.
\<close>

theorem C4_init_trims_character_sets:
  "init (manifest_entry
           (canonical_filename ''vsphere'' ''v1.0.0'' ''x5.0'' ''linux'' ''amd64'' ''zip'') ''2b'')
        vsphere_GetOptions
     = (\<lparr>Filename = ''packer-plugin-vsphere_v1.0.0_x5.0_linux_amd64.zip'',
         Checksum_field = ''2b'', ext = ''.zip'', binVersion = ''1.0.0'', os = ''linux'',
         arch = ''amd64'', protVersion = ''x5.0''\<rparr>, None)
   \<and> validate ex_world
         (fst (init (manifest_entry
            (canonical_filename ''vsphere'' ''v1.0.0'' ''x5.0'' ''linux'' ''amd64'' ''zip'') ''2b'')
            vsphere_GetOptions))
         vsphere_GetOptions
     = Returned (Some WrongVersion)
   \<and> init (manifest_entry
           (canonical_filename ''foo'' ''v1.0.0'' ''x5.0'' ''linux'' ''amd64'' []) ''2b'')
        foo_GetOptions
     = (\<lparr>Filename = ''packer-plugin-foo_v1.0.0_x5.0_linux_amd64'',
         Checksum_field = ''2b'', ext = ''.0_linux_amd64'', binVersion = [], os = [],
         arch = [], protVersion = []\<rparr>, Some MalformedFilename)
   \<and> init (manifest_entry
           (canonical_filename ''foo'' ''v1.0.0'' ''x5.0'' ''linux'' ''amd64'' ''zip'') ''2b'')
        foo_GetOptions
     = (\<lparr>Filename = ''packer-plugin-foo_v1.0.0_x5.0_linux_amd64.zip'',
         Checksum_field = ''2b'', ext = ''.zip'', binVersion = ''v1.0.0'', os = ''linux'',
         arch = ''amd64'', protVersion = ''x5.0''\<rparr>, None)"
  by code_simp

text \<open>The version that \<open>init\<close> stores for the \<open>vsphere\<close> entry, read off the theorem.\<close>

theorem C4_witness:
  "binVersion (fst (init (manifest_entry
      (canonical_filename ''vsphere'' ''v1.0.0'' ''x5.0'' ''linux'' ''amd64'' ''zip'') ''2b'')
      vsphere_GetOptions)) = ''1.0.0''
   \<and> ''1.0.0'' \<noteq> ''v1.0.0''"
  using C4_init_trims_character_sets by simp

subsection \<open>Discovery of a binary whose name has no protocol part\<close>

text \<open>
  Claim C8 (the code departs from it). A binary named with the version but without
  the protocol part, as \<open>ExpectedFilename\<close> names it, is matched by the glob of
  \<open>ListInstallations\<close>; its middle segment \<open>v1.2.3\<close> gives one part, and reading the
  second part panics: the file is not skipped, and the scan does not go on.
\<close>

theorem C8_ListInstallations_panics:
  "Glob ex_world
     (Join ex_world [''/plugins'', ''github.com'', ''ex'', ''foo'',
        FilenamePrefix foo_requirement @ ''*'' @ filenameSuffix (List_BinOpts list_opts)])
     [(''/plugins/github.com/ex/foo/packer-plugin-foo_v1.2.3_linux_amd64'', ''B''),
      (''/plugins/github.com/ex/foo/packer-plugin-foo_v1.2.3_linux_amd64.len8'', ''01'')]
     = Inr [''/plugins/github.com/ex/foo/packer-plugin-foo_v1.2.3_linux_amd64'']
   \<and> ListInstallations ex_world foo_requirement list_opts
     [(''/plugins/github.com/ex/foo/packer-plugin-foo_v1.2.3_linux_amd64'', ''B''),
      (''/plugins/github.com/ex/foo/packer-plugin-foo_v1.2.3_linux_amd64.len8'', ''01'')]
     = Panicked IndexOutOfRange"
  by code_simp

subsection \<open>A getter that cannot deliver the checksum manifest\<close>

text \<open>
  Claim C2 (the code departs from it). With two getters, the first of which fails to
  deliver the checksum manifest, \<open>InstallLatest\<close> returns that failure at once, although
  the second getter would have delivered everything. When it is the archive that the
  first getter fails to deliver, the second getter is tried and the plugin installed.
\<close>

theorem C2_manifest_failure_aborts:
  "InstallLatest ex_world foo_requirement
     (install_opts [no_manifest_getter, good_getter] [''/plugins'']) []
     = (Returned (Inl (CouldNotGetChecksumFile (External 6))), [])
   \<and> InstallLatest ex_world foo_requirement
     (install_opts [no_zip_getter, good_getter] [''/plugins'']) []
     = (Returned (Inr (Some
          \<lparr>BinaryPath = ''/plugins/github.com/ex/foo/packer-plugin-foo_v2.0.0_x5.0_linux_amd64'',
           Version = ''v2.0.0''\<rparr>)),
        [(''/plugins/github.com/ex/foo/packer-plugin-foo_v2.0.0_x5.0_linux_amd64.len8'', ''01''),
         (''/plugins/github.com/ex/foo/packer-plugin-foo_v2.0.0_x5.0_linux_amd64'', ''B'')])"
  by code_simp

subsection \<open>A release whose version does not parse\<close>

text \<open>
  Claim C9 (the code departs from it). When the index of a getter lists a version
  that does not parse, \<open>InstallLatest\<close> panics with the error of the parser; the entry
  is not skipped and the next getter is not asked.
\<close>

theorem C9_unparsable_release_panics:
  "good_getter ''releases'' (initial_GetOptions foo_requirement
        (install_opts [bad_release_getter, good_getter] [''/plugins'']))
     = Inr (''1.0.0,2.0.0'', None)
   \<and> bad_release_getter ''releases'' (initial_GetOptions foo_requirement
        (install_opts [bad_release_getter, good_getter] [''/plugins'']))
     = Inr (''1.0.0,latest'', None)
   \<and> InstallLatest ex_world foo_requirement
     (install_opts [bad_release_getter, good_getter] [''/plugins'']) []
     = (Panicked (PanicError (External 4)), [])"
  by code_simp

subsection \<open>The install pipeline: shared lemmas\<close>

lemma InstallLatest_phases:
  "InstallLatest w pr opts s =
     (case discover_versions w pr (initial_GetOptions pr opts) (Getters opts) [] of
        Panicked p \<Rightarrow> (Panicked p, s)
      | Returned versions \<Rightarrow>
          if versions = [] then (Returned (Inl NoReleaseVersion), s)
          else try_versions w pr opts (initial_GetOptions pr opts) versions s)"
  by (simp add: InstallLatest_def initial_GetOptions_def Let_def split: result.split)

lemma validate_no_panic:
  "version getOpts = Some v \<Longrightarrow> validate w e getOpts \<noteq> Panicked p"
  by (simp add: validate_def GetOptions_Version_def)

lemma find_entry_no_panic:
  "version getOpts = Some v \<Longrightarrow> find_entry w getOpts c entries \<noteq> Panicked p"
proof (induction entries)
  case Nil
  show ?case by simp
next
  case (Cons e es)
  obtain e' err where i: "init e getOpts = (e', err)" by (cases "init e getOpts")
  show ?case
  proof (cases err)
    case (Some x)
    with i Cons show ?thesis by simp
  next
    case None
    obtain r where "validate w e' getOpts = Returned r"
      using validate_no_panic [OF Cons.prems] by (cases "validate w e' getOpts") auto
    with i None Cons show ?thesis
      by (cases r) (auto split: sum.splits)
  qed
qed

lemma locate_in_getter_no_panic:
  "version getOpts = Some v \<Longrightarrow> locate_in_getter w getOpts g cs \<noteq> Panicked p"
proof (induction cs)
  case Nil
  show ?case by simp
next
  case (Cons c cs)
  then show ?case
    using find_entry_no_panic [OF Cons.prems]
    by (auto split: sum.splits result.splits option.splits)
qed

lemma locate_checksum_no_panic:
  "version getOpts = Some v \<Longrightarrow> locate_checksum w getOpts gs cs \<noteq> Panicked p"
proof (induction gs)
  case Nil
  show ?case by simp
next
  case (Cons g gs)
  then show ?case
    using locate_in_getter_no_panic [OF Cons.prems]
    by (auto split: sum.splits result.splits option.splits)
qed

lemma install_archive_no_panic:
  "install_archive w checksum out ver z s \<noteq> (Panicked p, s')"
  by (auto simp: install_archive_def Let_def split: option.splits sum.splits prod.splits)

lemma fetch_archive_no_panic:
  "fetch_archive w getOpts checksum out ver gs s \<noteq> (Stop (Panicked p), s')"
proof (induction gs arbitrary: s)
  case Nil
  show ?case by simp
next
  case (Cons g gs)
  show ?case
    using Cons.IH install_archive_no_panic [of w checksum out ver _ _ p s']
    by (auto split: option.splits sum.splits prod.splits)
qed

lemma try_version_panic:
  assumes "try_version w pr opts getOpts ver s = (Stop (Panicked p), s')"
  shows "InFolders opts = [] \<and> p = IndexOutOfRange \<and> s' = s"
proof (cases "InFolders opts = []")
  case True
  with assms show ?thesis by (simp add: try_version_def)
next
  case False
  have v: "version (getOpts\<lparr>version := Some ver\<rparr>) = Some ver" by simp
  have "False"
    using assms False locate_checksum_no_panic [OF v, of w "Getters opts" "Checksummers (Install_BinOpts opts)"]
      fetch_archive_no_panic [of w "getOpts\<lparr>version := Some ver\<rparr>" _ _ ver "Getters opts" _ p s']
    by (auto simp: try_version_def Let_def split: prod.splits option.splits result.splits sum.splits if_splits)
  then show ?thesis ..
qed

lemma try_versions_panic:
  "try_versions w pr opts getOpts vs s = (Panicked p, s')
   \<Longrightarrow> InFolders opts = [] \<and> p = IndexOutOfRange"
proof (induction vs arbitrary: s)
  case Nil
  then show ?case by simp
next
  case (Cons v vs)
  obtain a s1 where t: "try_version w pr opts getOpts v s = (a, s1)"
    by (cases "try_version w pr opts getOpts v s")
  show ?case
  proof (cases a)
    case (Stop r)
    with t Cons.prems have "try_version w pr opts getOpts v s = (Stop (Panicked p), s')" by simp
    from try_version_panic [OF this] show ?thesis by simp
  next
    case NextVersion
    with t Cons.prems have "try_versions w pr opts getOpts vs s1 = (Panicked p, s')" by simp
    then show ?thesis by (rule Cons.IH)
  qed
qed

lemma collect_versions_panic:
  "collect_versions w cs rels acc = Panicked p \<Longrightarrow> \<exists>e. p = PanicError e"
  by (induction rels arbitrary: acc) (auto split: sum.splits)

lemma discover_versions_panic:
  "discover_versions w pr getOpts gs acc = Panicked p \<Longrightarrow> \<exists>e. p = PanicError e"
proof (induction gs arbitrary: acc)
  case Nil
  then show ?case by simp
next
  case (Cons g gs)
  then show ?case
    using collect_versions_panic [of w "VersionConstraints pr" _ acc p]
    by (auto split: sum.splits result.splits if_splits)
qed

lemma collect_versions_Returned:
  "collect_versions w cs rels acc = Returned vs
   \<Longrightarrow> \<exists>parsed. map (\<lambda>r. NewVersion w (Release_Version r)) rels = map Inr parsed
          \<and> vs = acc @ filter (Check w cs) parsed"
proof (induction rels arbitrary: acc)
  case Nil
  then show ?case by simp
next
  case (Cons r rels)
  from Cons.prems obtain v where v: "NewVersion w (Release_Version r) = Inr v"
    and c: "collect_versions w cs rels (if Check w cs v then acc @ [v] else acc) = Returned vs"
    by (auto split: sum.splits)
  from Cons.IH [OF c] obtain parsed where
    p: "map (\<lambda>r. NewVersion w (Release_Version r)) rels = map Inr parsed"
    and e: "vs = (if Check w cs v then acc @ [v] else acc) @ filter (Check w cs) parsed"
    by blast
  have "map (\<lambda>r. NewVersion w (Release_Version r)) (r # rels) = map Inr (v # parsed)"
    using v p by simp
  moreover have "vs = acc @ filter (Check w cs) (v # parsed)"
    using e by simp
  ultimately show ?case by blast
qed

lemma discover_versions_Returned:
  "discover_versions w pr getOpts gs [] = Returned vs \<Longrightarrow> vs \<noteq> []
   \<Longrightarrow> \<exists>gs1 g gs2 f rels vs'.
          gs = gs1 @ g # gs2
        \<and> discover_versions w pr getOpts gs1 [] = Returned []
        \<and> g ''releases'' getOpts = Inr f \<and> ParseReleases w f = Inr rels
        \<and> collect_versions w (VersionConstraints pr) rels [] = Returned vs'
        \<and> vs' \<noteq> [] \<and> vs = Sort_Reverse w vs'"
proof (induction gs)
  case Nil
  then show ?case by simp
next
  case (Cons g gs)
  let ?yields = "\<exists>f rels vs'. g ''releases'' getOpts = Inr f \<and> ParseReleases w f = Inr rels
        \<and> collect_versions w (VersionConstraints pr) rels [] = Returned vs' \<and> vs' \<noteq> []"
  show ?case
  proof (cases ?yields)
    case True
    then obtain f rels vs' where y: "g ''releases'' getOpts = Inr f" "ParseReleases w f = Inr rels"
      "collect_versions w (VersionConstraints pr) rels [] = Returned vs'" "vs' \<noteq> []"
      by blast
    from y(3,4) have "rels \<noteq> []" by auto
    with y Cons.prems(1) have "vs = Sort_Reverse w vs'" by simp
    moreover have "g # gs = [] @ g # gs" by simp
    moreover have "discover_versions w pr getOpts [] [] = Returned []" by simp
    ultimately show ?thesis using y by blast
  next
    case False
    have np: "\<not> (\<exists>f rels p. g ''releases'' getOpts = Inr f \<and> ParseReleases w f = Inr rels
        \<and> rels \<noteq> [] \<and> collect_versions w (VersionConstraints pr) rels [] = Panicked p)"
      using Cons.prems(1) by (auto split: sum.splits result.splits if_splits)
    have skip: "\<And>gs'. discover_versions w pr getOpts (g # gs') []
                  = discover_versions w pr getOpts gs' []"
      using False np by (auto split: sum.splits result.splits)
    with Cons.prems have "discover_versions w pr getOpts gs [] = Returned vs" by simp
    from Cons.IH [OF this Cons.prems(2)] obtain gs1 g' gs2 f rels vs' where
      i: "gs = gs1 @ g' # gs2" "discover_versions w pr getOpts gs1 [] = Returned []"
         "g' ''releases'' getOpts = Inr f" "ParseReleases w f = Inr rels"
         "collect_versions w (VersionConstraints pr) rels [] = Returned vs'"
         "vs' \<noteq> []" "vs = Sort_Reverse w vs'"
      by blast
    have "discover_versions w pr getOpts (g # gs1) [] = Returned []"
      using skip [of gs1] i(2) by simp
    moreover have "g # gs = (g # gs1) @ g' # gs2" using i(1) by simp
    ultimately show ?thesis using i(3-) by blast
  qed
qed

lemma install_archive_Some:
  "install_archive w checksum out ver z s = (Returned (Inr (Some inst)), s')
   \<Longrightarrow> inst = \<lparr>BinaryPath = out, Version = ''v'' @ Version_String w ver\<rparr>
       \<and> (\<exists>files copyFrom. ZipReader w z = Inr files
             \<and> find_zip_entry files (filepath_Base out) = Inr (Some copyFrom))"
  by (auto simp: install_archive_def Let_def split: option.splits sum.splits prod.splits)

lemma copy_to_temp_ok:
  "copy_to_temp w f s = (None, s') \<Longrightarrow> snd f = None"
  by (auto simp: copy_to_temp_def split: prod.splits option.splits)

lemma fetch_archive_Some:
  "fetch_archive w getOpts checksum out ver gs s = (Stop (Returned (Inr (Some inst))), s')
   \<Longrightarrow> inst = \<lparr>BinaryPath = out, Version = ''v'' @ Version_String w ver\<rparr>
       \<and> (\<exists>g \<in> set gs. \<exists>z. g ''zip'' getOpts = Inr (z, None)
             \<and> Checksum (FC_Checksummer checksum) (FC_Expected checksum) z = None
             \<and> (\<exists>files copyFrom. ZipReader w z = Inr files
                   \<and> find_zip_entry files (filepath_Base out) = Inr (Some copyFrom)))"
proof (induction gs arbitrary: s)
  case Nil
  then show ?case by simp
next
  case (Cons g gs)
  let ?P = "\<lambda>gs. inst = \<lparr>BinaryPath = out, Version = ''v'' @ Version_String w ver\<rparr>
       \<and> (\<exists>g \<in> set gs. \<exists>z. g ''zip'' getOpts = Inr (z, None)
             \<and> Checksum (FC_Checksummer checksum) (FC_Expected checksum) z = None
             \<and> (\<exists>files copyFrom. ZipReader w z = Inr files
                   \<and> find_zip_entry files (filepath_Base out) = Inr (Some copyFrom)))"
  have rec: "\<And>s1. fetch_archive w getOpts checksum out ver gs s1
                 = (Stop (Returned (Inr (Some inst))), s') \<Longrightarrow> ?P (g # gs)"
    using Cons.IH by auto
  obtain e1 s1 where t: "TempFile w s = (e1, s1)" by (cases "TempFile w s")
  show ?case
  proof (cases e1)
    case (Some err)
    with t Cons.prems show ?thesis by simp
  next
    case None
    note tn = this
    show ?thesis
    proof (cases "g ''zip'' getOpts")
      case (Inl err)
      with t tn Cons.prems show ?thesis using rec by simp
    next
      case (Inr f)
      obtain e2 s2 where c: "copy_to_temp w f s1 = (e2, s2)" by (cases "copy_to_temp w f s1")
      show ?thesis
      proof (cases e2)
        case (Some err)
        with t tn Inr c Cons.prems show ?thesis using rec by simp
      next
        case None
        note cn = this
        from c cn have "copy_to_temp w f s1 = (None, s2)" by simp
        from copy_to_temp_ok [OF this] have sf: "snd f = None" .
        then have f: "f = (fst f, None)" by (cases f) simp
        show ?thesis
        proof (cases "SeekTemp w s2")
          case (Some err)
          with t tn Inr c cn Cons.prems show ?thesis using rec by simp
        next
          case None
          note sn = this
          show ?thesis
          proof (cases "Checksum (FC_Checksummer checksum) (FC_Expected checksum) (fst f)")
            case (Some err)
            with t tn Inr c cn sn Cons.prems show ?thesis using rec by simp
          next
            case None
            obtain r s3 where ia: "install_archive w checksum out ver (fst f) s2 = (r, s3)"
              by (cases "install_archive w checksum out ver (fst f) s2")
            with t tn Inr c cn sn None Cons.prems
            have "install_archive w checksum out ver (fst f) s2 = (Returned (Inr (Some inst)), s')"
              by simp
            from install_archive_Some [OF this] None Inr f show ?thesis
              by (metis list.set_intros(1))
          qed
        qed
      qed
    qed
  qed
qed

lemma try_version_located:
  "InFolders opts \<noteq> [] \<Longrightarrow> MkdirAll w (Dir w (outputFolder_of w pr opts)) s = (None, s1)
   \<Longrightarrow> locate_checksum w (getOpts\<lparr>version := Some ver\<rparr>) (Getters opts)
         (Checksummers (Install_BinOpts opts)) = Returned (Inr (Some fc))
   \<Longrightarrow> try_version w pr opts getOpts ver s =
       (if already_installed (Checksummers (Install_BinOpts opts))
             (outputFileName_of w pr opts fc) s1
        then (Stop (Returned (Inr None)), s1)
        else fetch_archive w (getOpts\<lparr>version := Some ver\<rparr>) fc
               (outputFileName_of w pr opts fc) ver (Getters opts) s1)"
  by (simp add: try_version_def outputFileName_of_def outputFolder_of_def Let_def)

lemma try_version_Some:
  assumes "try_version w pr opts getOpts ver s = (Stop (Returned (Inr (Some inst))), s')"
  shows "InFolders opts \<noteq> [] \<and>
    (\<exists>fc s1. MkdirAll w (Dir w (outputFolder_of w pr opts)) s = (None, s1)
       \<and> locate_checksum w (getOpts\<lparr>version := Some ver\<rparr>) (Getters opts)
            (Checksummers (Install_BinOpts opts)) = Returned (Inr (Some fc))
       \<and> fetch_archive w (getOpts\<lparr>version := Some ver\<rparr>) fc
            (outputFileName_of w pr opts fc) ver (Getters opts) s1
          = (Stop (Returned (Inr (Some inst))), s'))"
proof -
  have f: "InFolders opts \<noteq> []"
    using assms by (auto simp: try_version_def)
  obtain e s1 where m: "MkdirAll w (Dir w (outputFolder_of w pr opts)) s = (e, s1)"
    by (cases "MkdirAll w (Dir w (outputFolder_of w pr opts)) s")
  have e: "e = None"
    using assms f m by (cases e) (auto simp: try_version_def outputFolder_of_def Let_def)
  obtain fc where l: "locate_checksum w (getOpts\<lparr>version := Some ver\<rparr>) (Getters opts)
            (Checksummers (Install_BinOpts opts)) = Returned (Inr (Some fc))"
    using assms f m e
    by (auto simp: try_version_def outputFolder_of_def Let_def
             split: result.splits sum.splits option.splits)
  have "fetch_archive w (getOpts\<lparr>version := Some ver\<rparr>) fc
            (outputFileName_of w pr opts fc) ver (Getters opts) s1
          = (Stop (Returned (Inr (Some inst))), s')"
    using assms try_version_located [OF f m [unfolded e] l]
    by (auto split: if_splits)
  with f m e l show ?thesis by blast
qed

lemma try_versions_exhausted:
  "exhausted w pr opts getOpts pre s0 = Some s
   \<Longrightarrow> try_versions w pr opts getOpts (pre @ vs) s0 = try_versions w pr opts getOpts vs s"
proof (induction pre arbitrary: s0)
  case Nil
  then show ?case by simp
next
  case (Cons v pre)
  obtain a s1 where t: "try_version w pr opts getOpts v s0 = (a, s1)"
    by (cases "try_version w pr opts getOpts v s0")
  with Cons.prems have a: "a = NextVersion" and e: "exhausted w pr opts getOpts pre s1 = Some s"
    by (cases a; simp)+
  show ?case using t a Cons.IH [OF e] by simp
qed

lemma try_versions_Some:
  "try_versions w pr opts getOpts vs s = (Returned (Inr (Some inst)), s')
   \<Longrightarrow> \<exists>pre v post s1. vs = pre @ v # post
         \<and> exhausted w pr opts getOpts pre s = Some s1
         \<and> try_version w pr opts getOpts v s1 = (Stop (Returned (Inr (Some inst))), s')"
proof (induction vs arbitrary: s)
  case Nil
  then show ?case by simp
next
  case (Cons v vs)
  obtain a s1 where t: "try_version w pr opts getOpts v s = (a, s1)"
    by (cases "try_version w pr opts getOpts v s")
  show ?case
  proof (cases a)
    case (Stop r)
    with t Cons.prems have "try_version w pr opts getOpts v s = (Stop (Returned (Inr (Some inst))), s')"
      by simp
    moreover have "v # vs = [] @ v # vs" by simp
    moreover have "exhausted w pr opts getOpts [] s = Some s" by simp
    ultimately show ?thesis by blast
  next
    case NextVersion
    with t Cons.prems have "try_versions w pr opts getOpts vs s1 = (Returned (Inr (Some inst)), s')"
      by simp
    from Cons.IH [OF this] obtain pre v' post s2 where
      i: "vs = pre @ v' # post" "exhausted w pr opts getOpts pre s1 = Some s2"
         "try_version w pr opts getOpts v' s2 = (Stop (Returned (Inr (Some inst))), s')"
      by blast
    have "v # vs = (v # pre) @ v' # post" using i(1) by simp
    moreover have "exhausted w pr opts getOpts (v # pre) s = Some s2"
      using t NextVersion i(2) by simp
    ultimately show ?thesis using i(3) by blast
  qed
qed

lemma InstallLatest_Some:
  assumes "InstallLatest w pr opts s = (Returned (Inr (Some inst)), s')"
  shows "\<exists>versions. discover_versions w pr (initial_GetOptions pr opts) (Getters opts) []
            = Returned versions \<and> versions \<noteq> []
         \<and> try_versions w pr opts (initial_GetOptions pr opts) versions s
            = (Returned (Inr (Some inst)), s')"
  using assms
  by (auto simp: InstallLatest_phases split: result.splits if_splits)

lemma already_installed_iff:
  "already_installed cs out s \<longleftrightarrow>
     (\<exists>c \<in> set cs. \<exists>d. GetChecksumOfFile c out s = Inr d \<and> d \<noteq> []
         \<and> ChecksumFile c d out s = None)"
  by (induction cs) (auto split: sum.splits)

lemma checksumOk_iff:
  "checksumOk cs path s \<longleftrightarrow>
     (\<exists>c \<in> set cs. \<exists>d. GetChecksumOfFile c path s = Inr d \<and> ChecksumFile c d path s = None)"
  by (induction cs) (auto split: sum.splits option.splits)

lemma set_InsertSortedUniq_subset: "set (InsertSortedUniq l x) \<subseteq> insert x (set l)"
proof -
  have "set (take n l) \<subseteq> set l" "set (drop n l) \<subseteq> set l" for n
    by (simp_all add: set_take_subset set_drop_subset)
  then show ?thesis
    by (auto simp: InsertSortedUniq_def Let_def)
qed

lemma scan_matches_checked:
  "scan_matches w pr opts ms res s = Returned res'
   \<Longrightarrow> \<forall>i \<in> set res. checksumOk (Checksummers (List_BinOpts opts)) (BinaryPath i) s
   \<Longrightarrow> \<forall>i \<in> set res'. checksumOk (Checksummers (List_BinOpts opts)) (BinaryPath i) s"
proof (induction ms arbitrary: res)
  case Nil
  then show ?case by simp
next
  case (Cons path ms)
  let ?Q = "\<lambda>l. \<forall>i \<in> set l. checksumOk (Checksummers (List_BinOpts opts)) (BinaryPath i) s"
  define parts where "parts = SplitN (TrimSuffix (TrimPrefix (filepath_Base path) (FilenamePrefix pr))
                       (filenameSuffix (List_BinOpts opts))) CHR ''_'' 2"
  let ?new = "InsertSortedUniq res \<lparr>BinaryPath = path, Version = parts ! 0\<rparr>"
  have "scan_matches w pr opts ms res s = Returned res'
        \<or> (checksumOk (Checksummers (List_BinOpts opts)) path s
            \<and> scan_matches w pr opts ms ?new s = Returned res')"
    using Cons.prems(1)
    by (auto simp: Let_def parts_def split: if_splits sum.splits option.splits)
  then show ?case
  proof
    assume "scan_matches w pr opts ms res s = Returned res'"
    from Cons.IH [OF this Cons.prems(2)] show ?thesis .
  next
    assume a: "checksumOk (Checksummers (List_BinOpts opts)) path s
            \<and> scan_matches w pr opts ms ?new s = Returned res'"
    have "?Q ?new"
    proof
      fix i assume "i \<in> set ?new"
      then have "i = \<lparr>BinaryPath = path, Version = parts ! 0\<rparr> \<or> i \<in> set res"
        using set_InsertSortedUniq_subset by blast
      then show "checksumOk (Checksummers (List_BinOpts opts)) (BinaryPath i) s"
        using a Cons.prems(2) by auto
    qed
    with a Cons.IH show ?thesis by blast
  qed
qed

lemma scan_folders_checked:
  "scan_folders w pr opts folders res s = Returned (Inr res')
   \<Longrightarrow> \<forall>i \<in> set res. checksumOk (Checksummers (List_BinOpts opts)) (BinaryPath i) s
   \<Longrightarrow> \<forall>i \<in> set res'. checksumOk (Checksummers (List_BinOpts opts)) (BinaryPath i) s"
proof (induction folders arbitrary: res)
  case Nil
  then show ?case by simp
next
  case (Cons folder folders)
  from Cons.prems(1) obtain ms res1 where
    m: "scan_matches w pr opts ms res s = Returned res1"
    and f: "scan_folders w pr opts folders res1 s = Returned (Inr res')"
    by (auto simp: Let_def split: sum.splits result.splits)
  from scan_matches_checked [OF m Cons.prems(2)] Cons.IH [OF f] show ?case by blast
qed

lemma ex_world_sorts_descending:
  "sorted_wrt (\<lambda>a b. \<not> LessThan ex_world a b) (Sort_Reverse ex_world xs)"
proof -
  have "sorted_wrt (\<lambda>a b. a \<le> b) (sort xs)"
    using sorted_sort [of xs] by simp
  then have "sorted_wrt (\<lambda>a b. \<not> b < a) (sort xs)"
    by (simp add: not_less)
  then show ?thesis
    by (simp add: ex_world_def ex_Sort_Reverse_def ex_LessThan_def sorted_wrt_rev)
qed

subsection \<open>The output folder\<close>

text \<open>
  Claim C10. When \<open>InFolders\<close> is empty and Phase A returns at least one version
  that satisfies the constraints, \<open>InstallLatest\<close> panics with an index out of range
  (on selecting the last folder, before anything is written); with a non-empty
  \<open>InFolders\<close> it never panics so.
\<close>

theorem C10_InstallLatest_needs_a_folder:
  "(InFolders opts = []
      \<and> discover_versions w pr (initial_GetOptions pr opts) (Getters opts) [] = Returned versions
      \<and> versions \<noteq> []
     \<longrightarrow> InstallLatest w pr opts s = (Panicked IndexOutOfRange, s))
   \<and> (InFolders opts \<noteq> [] \<longrightarrow> fst (InstallLatest w pr opts s) \<noteq> Panicked IndexOutOfRange)"
proof (intro conjI impI)
  assume h: "InFolders opts = []
      \<and> discover_versions w pr (initial_GetOptions pr opts) (Getters opts) [] = Returned versions
      \<and> versions \<noteq> []"
  then obtain v vs where vs: "versions = v # vs" by (cases versions) auto
  have "try_version w pr opts (initial_GetOptions pr opts) v s = (Stop (Panicked IndexOutOfRange), s)"
    using h by (simp add: try_version_def)
  then have "try_versions w pr opts (initial_GetOptions pr opts) versions s = (Panicked IndexOutOfRange, s)"
    by (simp add: vs)
  with h show "InstallLatest w pr opts s = (Panicked IndexOutOfRange, s)"
    by (simp add: InstallLatest_phases)
next
  assume f: "InFolders opts \<noteq> []"
  show "fst (InstallLatest w pr opts s) \<noteq> Panicked IndexOutOfRange"
  proof
    assume a: "fst (InstallLatest w pr opts s) = Panicked IndexOutOfRange"
    obtain r s' where r: "InstallLatest w pr opts s = (r, s')" by (cases "InstallLatest w pr opts s")
    with a have rp: "r = Panicked IndexOutOfRange" by simp
    show False
    proof (cases "discover_versions w pr (initial_GetOptions pr opts) (Getters opts) []")
      case (Panicked p)
      have "p \<noteq> IndexOutOfRange" using discover_versions_panic [OF Panicked] by auto
      with Panicked r rp show False by (simp add: InstallLatest_phases)
    next
      case (Returned versions)
      with r rp have "try_versions w pr opts (initial_GetOptions pr opts) versions s = (Panicked IndexOutOfRange, s')"
        by (auto simp: InstallLatest_phases split: if_splits)
      from try_versions_panic [OF this] f show False by simp
    qed
  qed
qed

theorem C10_witness:
  "InFolders (install_opts [good_getter] []) = []
   \<and> discover_versions ex_world foo_requirement
        (initial_GetOptions foo_requirement (install_opts [good_getter] []))
        (Getters (install_opts [good_getter] [])) [] = Returned [[2, 0, 0], [1, 0, 0]]
   \<and> InstallLatest ex_world foo_requirement (install_opts [good_getter] []) []
        = (Panicked IndexOutOfRange, [])
   \<and> InFolders (install_opts [good_getter] [''/plugins'']) \<noteq> []
   \<and> fst (InstallLatest ex_world foo_requirement (install_opts [good_getter] [''/plugins'']) [])
        \<noteq> Panicked IndexOutOfRange"
proof -
  have d: "discover_versions ex_world foo_requirement
        (initial_GetOptions foo_requirement (install_opts [good_getter] []))
        (Getters (install_opts [good_getter] [])) [] = Returned [[2, 0, 0], [1, 0, 0]]"
    by code_simp
  have f: "InFolders (install_opts [good_getter] []) = []"
    "InFolders (install_opts [good_getter] [''/plugins'']) \<noteq> []"
    by (simp_all add: install_opts_def)
  show ?thesis
    using C10_InstallLatest_needs_a_folder
      [where opts = "install_opts [good_getter] []" and w = ex_world and pr = foo_requirement
         and versions = "[[2, 0, 0], [1, 0, 0]]" and s = "[]"]
      C10_InstallLatest_needs_a_folder
      [where opts = "install_opts [good_getter] [''/plugins'']" and w = ex_world
         and pr = foo_requirement and s = "[]"]
      d f by simp
qed

subsection \<open>The plugin is already installed\<close>

text \<open>
  Claim C7, as amended. In the attempt at a version \<open>ver\<close>, started in state \<open>s\<close>: if
  the output folder's parent is created (state \<open>sm\<close>), the checksum \<open>fc\<close> is located,
  and some checksummer of the list reads, from the sidecar of the output file, a digest
  of at least one byte that matches the file at the output file name, then the attempt
  makes the function
  return \<open>(nil, nil)\<close> in the state \<open>sm\<close>: no temporary file, no archive, no binary
  and no sidecar is written; so does the call, whichever attempt this is (the attempts
  \<open>pre\<close> before it having gone on to the next version). A second identical call is
  a no-op when the first call installed the first candidate version and left, in its
  final state \<open>si\<close>, a sidecar whose digest verifies the binary (and creating the
  existing folders changes nothing): then it returns \<open>(nil, nil)\<close> and leaves the
  state as it is.
\<close>

theorem C7_already_installed_short_circuit:
  "(InFolders opts \<noteq> []
    \<and> MkdirAll w (Dir w (outputFolder_of w pr opts)) s = (None, sm)
    \<and> locate_checksum w ((initial_GetOptions pr opts)\<lparr>version := Some ver\<rparr>) (Getters opts)
         (Checksummers (Install_BinOpts opts)) = Returned (Inr (Some fc))
    \<and> c \<in> set (Checksummers (Install_BinOpts opts))
    \<and> GetChecksumOfFile c (outputFileName_of w pr opts fc) sm = Inr cs \<and> cs \<noteq> []
    \<and> ChecksumFile c cs (outputFileName_of w pr opts fc) sm = None
   \<longrightarrow> try_version w pr opts (initial_GetOptions pr opts) ver s
         = (Stop (Returned (Inr None)), sm)
     \<and> (discover_versions w pr (initial_GetOptions pr opts) (Getters opts) []
           = Returned (pre @ ver # post)
        \<and> exhausted w pr opts (initial_GetOptions pr opts) pre sb = Some s
        \<longrightarrow> InstallLatest w pr opts sb = (Returned (Inr None), sm)))
   \<and> (discover_versions w pr (initial_GetOptions pr opts) (Getters opts) []
         = Returned (ver # post)
      \<and> try_version w pr opts (initial_GetOptions pr opts) ver sb
         = (Stop (Returned (Inr (Some inst))), si)
      \<and> MkdirAll w (Dir w (outputFolder_of w pr opts)) si = (None, si)
      \<and> c \<in> set (Checksummers (Install_BinOpts opts))
      \<and> GetChecksumOfFile c (BinaryPath inst) si = Inr cs \<and> cs \<noteq> []
      \<and> ChecksumFile c cs (BinaryPath inst) si = None
     \<longrightarrow> InstallLatest w pr opts sb = (Returned (Inr (Some inst)), si)
       \<and> InstallLatest w pr opts si = (Returned (Inr None), si))"
proof -
  let ?go = "initial_GetOptions pr opts"
  have attempt: "try_version w pr opts ?go v t = (Stop (Returned (Inr None)), t1)"
    if "InFolders opts \<noteq> []"
      and "MkdirAll w (Dir w (outputFolder_of w pr opts)) t = (None, t1)"
      and "locate_checksum w (?go\<lparr>version := Some v\<rparr>) (Getters opts)
             (Checksummers (Install_BinOpts opts)) = Returned (Inr (Some k))"
      and "c \<in> set (Checksummers (Install_BinOpts opts))"
      and "GetChecksumOfFile c (outputFileName_of w pr opts k) t1 = Inr cs" and "cs \<noteq> []"
      and "ChecksumFile c cs (outputFileName_of w pr opts k) t1 = None"
    for v t t1 k
  proof -
    have "already_installed (Checksummers (Install_BinOpts opts))
            (outputFileName_of w pr opts k) t1"
      unfolding already_installed_iff using that(4-7) by blast
    then show ?thesis
      using try_version_located [OF that(1-3)] by simp
  qed
  have call: "InstallLatest w pr opts t0 = (Returned (Inr None), t1)"
    if "try_version w pr opts ?go v t = (Stop (Returned (Inr None)), t1)"
      and "discover_versions w pr ?go (Getters opts) [] = Returned (p @ v # q)"
      and "exhausted w pr opts ?go p t0 = Some t"
    for v t t0 t1 p q
  proof -
    have "try_versions w pr opts ?go (p @ v # q) t0 = try_versions w pr opts ?go (v # q) t"
      by (rule try_versions_exhausted [OF that(3)])
    also have "\<dots> = (Returned (Inr None), t1)" using that(1) by simp
    finally show ?thesis using that(2) by (simp add: InstallLatest_phases)
  qed
  show ?thesis
  proof (intro conjI impI)
    assume h: "InFolders opts \<noteq> []
      \<and> MkdirAll w (Dir w (outputFolder_of w pr opts)) s = (None, sm)
      \<and> locate_checksum w (?go\<lparr>version := Some ver\<rparr>) (Getters opts)
           (Checksummers (Install_BinOpts opts)) = Returned (Inr (Some fc))
      \<and> c \<in> set (Checksummers (Install_BinOpts opts))
      \<and> GetChecksumOfFile c (outputFileName_of w pr opts fc) sm = Inr cs \<and> cs \<noteq> []
      \<and> ChecksumFile c cs (outputFileName_of w pr opts fc) sm = None"
    then show a: "try_version w pr opts ?go ver s = (Stop (Returned (Inr None)), sm)"
      using attempt [of s sm ver fc] by blast
    assume "discover_versions w pr ?go (Getters opts) [] = Returned (pre @ ver # post)
        \<and> exhausted w pr opts ?go pre sb = Some s"
    then show "InstallLatest w pr opts sb = (Returned (Inr None), sm)"
      using call [OF a] by blast
  next
    assume h: "discover_versions w pr ?go (Getters opts) [] = Returned (ver # post)
      \<and> try_version w pr opts ?go ver sb = (Stop (Returned (Inr (Some inst))), si)
      \<and> MkdirAll w (Dir w (outputFolder_of w pr opts)) si = (None, si)
      \<and> c \<in> set (Checksummers (Install_BinOpts opts))
      \<and> GetChecksumOfFile c (BinaryPath inst) si = Inr cs \<and> cs \<noteq> []
      \<and> ChecksumFile c cs (BinaryPath inst) si = None"
    then have t: "try_version w pr opts ?go ver sb = (Stop (Returned (Inr (Some inst))), si)"
      and d: "discover_versions w pr ?go (Getters opts) [] = Returned (ver # post)"
      by blast+
    from d t show first: "InstallLatest w pr opts sb = (Returned (Inr (Some inst)), si)"
      by (simp add: InstallLatest_phases)
    from try_version_Some [OF t] obtain k t1 where
      f: "InFolders opts \<noteq> []"
      and l: "locate_checksum w (?go\<lparr>version := Some ver\<rparr>) (Getters opts)
            (Checksummers (Install_BinOpts opts)) = Returned (Inr (Some k))"
      and fa: "fetch_archive w (?go\<lparr>version := Some ver\<rparr>) k
            (outputFileName_of w pr opts k) ver (Getters opts) t1
          = (Stop (Returned (Inr (Some inst))), si)"
      by blast
    from fetch_archive_Some [OF fa] have b: "BinaryPath inst = outputFileName_of w pr opts k"
      by simp
    have "try_version w pr opts ?go ver si = (Stop (Returned (Inr None)), si)"
      using attempt [of si si ver k] f l h b by simp
    moreover have "discover_versions w pr ?go (Getters opts) [] = Returned ([] @ ver # post)"
      using d by simp
    moreover have "exhausted w pr opts ?go [] si = Some si" by simp
    ultimately show "InstallLatest w pr opts si = (Returned (Inr None), si)"
      by (rule call)
  qed
qed

theorem C7_witness:
  "InFolders (install_opts [good_getter] [''/plugins'']) \<noteq> []
   \<and> MkdirAll ex_world
        (Dir ex_world (outputFolder_of ex_world foo_requirement
           (install_opts [good_getter] [''/plugins''])))
        installed_fs = (None, installed_fs)
   \<and> (\<exists>fc. locate_checksum ex_world
        ((initial_GetOptions foo_requirement (install_opts [good_getter] [''/plugins'']))
           \<lparr>version := Some [2, 0, 0]\<rparr>)
        (Getters (install_opts [good_getter] [''/plugins'']))
        (Checksummers (Install_BinOpts (install_opts [good_getter] [''/plugins''])))
      = Returned (Inr (Some fc))
      \<and> FC_Filename fc = ''packer-plugin-foo_v2.0.0_x5.0_linux_amd64.zip''
      \<and> outputFileName_of ex_world foo_requirement (install_opts [good_getter] [''/plugins''])
            fc = BinaryPath v2_Installation)
   \<and> ex_checksummer
        \<in> set (Checksummers (Install_BinOpts (install_opts [good_getter] [''/plugins''])))
   \<and> GetChecksumOfFile ex_checksummer (BinaryPath v2_Installation) installed_fs = Inr ''01''
   \<and> ChecksumFile ex_checksummer ''01'' (BinaryPath v2_Installation) installed_fs = None
   \<and> discover_versions ex_world foo_requirement
        (initial_GetOptions foo_requirement (install_opts [good_getter] [''/plugins'']))
        (Getters (install_opts [good_getter] [''/plugins''])) []
      = Returned [[2, 0, 0], [1, 0, 0]]
   \<and> try_version ex_world foo_requirement (install_opts [good_getter] [''/plugins''])
        (initial_GetOptions foo_requirement (install_opts [good_getter] [''/plugins'']))
        [2, 0, 0] [] = (Stop (Returned (Inr (Some v2_Installation))), installed_fs)
   \<and> try_version ex_world foo_requirement (install_opts [good_getter] [''/plugins''])
        (initial_GetOptions foo_requirement (install_opts [good_getter] [''/plugins'']))
        [2, 0, 0] installed_fs = (Stop (Returned (Inr None)), installed_fs)
   \<and> InstallLatest ex_world foo_requirement (install_opts [good_getter] [''/plugins'']) []
      = (Returned (Inr (Some v2_Installation)), installed_fs)
   \<and> InstallLatest ex_world foo_requirement (install_opts [good_getter] [''/plugins''])
        installed_fs = (Returned (Inr None), installed_fs)"
proof -
  let ?opts = "install_opts [good_getter] [''/plugins'']"
  let ?go = "initial_GetOptions foo_requirement ?opts"
  have f: "InFolders ?opts \<noteq> []" by (simp add: install_opts_def)
  have m: "MkdirAll ex_world (Dir ex_world (outputFolder_of ex_world foo_requirement ?opts))
             installed_fs = (None, installed_fs)"
    by (simp add: ex_world_def ex_ok1_def)
  have "(case locate_checksum ex_world (?go\<lparr>version := Some [2, 0, 0]\<rparr>) (Getters ?opts)
             (Checksummers (Install_BinOpts ?opts)) of
           Returned (Inr (Some fc)) \<Rightarrow>
             FC_Filename fc = ''packer-plugin-foo_v2.0.0_x5.0_linux_amd64.zip''
         | _ \<Rightarrow> False)"
    by code_simp
  then obtain fc where
    l: "locate_checksum ex_world (?go\<lparr>version := Some [2, 0, 0]\<rparr>) (Getters ?opts)
             (Checksummers (Install_BinOpts ?opts)) = Returned (Inr (Some fc))"
    and fn: "FC_Filename fc = ''packer-plugin-foo_v2.0.0_x5.0_linux_amd64.zip''"
    by (auto split: result.splits sum.splits option.splits)
  have c: "ex_checksummer \<in> set (Checksummers (Install_BinOpts ?opts))"
    by (simp add: install_opts_def host_5_0_def)
  have "Join ex_world [outputFolder_of ex_world foo_requirement ?opts,
          TrimSuffix ''packer-plugin-foo_v2.0.0_x5.0_linux_amd64.zip''
            (filepath_Ext ''packer-plugin-foo_v2.0.0_x5.0_linux_amd64.zip'')]
        = BinaryPath v2_Installation"
    by code_simp
  then have o: "outputFileName_of ex_world foo_requirement ?opts fc = BinaryPath v2_Installation"
    by (simp add: outputFileName_of_def fn)
  have g: "GetChecksumOfFile ex_checksummer (BinaryPath v2_Installation) installed_fs = Inr ''01''"
    by code_simp
  have k: "ChecksumFile ex_checksummer ''01'' (BinaryPath v2_Installation) installed_fs = None"
    by code_simp
  have d: "discover_versions ex_world foo_requirement ?go (Getters ?opts) []
             = Returned [[2, 0, 0], [1, 0, 0]]"
    by code_simp
  have t: "try_version ex_world foo_requirement ?opts ?go [2, 0, 0] []
             = (Stop (Returned (Inr (Some v2_Installation))), installed_fs)"
    by code_simp
  have n: "''01'' \<noteq> ([] :: string)" by simp
  note C7 = C7_already_installed_short_circuit
      [where w = ex_world and pr = foo_requirement and opts = ?opts and ver = "[2, 0, 0]"
         and s = installed_fs and sm = installed_fs and fc = fc
         and c = ex_checksummer and cs = "''01''" and pre = "[]" and post = "[[1, 0, 0]]"
         and sb = "[]" and inst = v2_Installation and si = installed_fs]
  have "try_version ex_world foo_requirement ?opts ?go [2, 0, 0] installed_fs
          = (Stop (Returned (Inr None)), installed_fs)
        \<and> InstallLatest ex_world foo_requirement ?opts []
          = (Returned (Inr (Some v2_Installation)), installed_fs)
        \<and> InstallLatest ex_world foo_requirement ?opts installed_fs
          = (Returned (Inr None), installed_fs)"
    using C7 f m l c g k d t n unfolding o by simp
  with f m l fn o c g k d t show ?thesis by blast
qed

text \<open>
  The claim as stated fails for the second call in two cases. When the sidecar cannot
  be written, the first call ignores the failure and returns the installation; the
  second identical call finds no sidecar, fetches the archive and installs again. When
  the first call installed version 1.0.0 after the attempt at 2.0.0 had exhausted its
  getters, the second call attempts 2.0.0 again and creates a temporary file for it
  before it returns \<open>(nil, nil)\<close>. It also fails for an empty digest: with a
  checksummer that reads an empty digest and accepts the binary against it, the call
  does not return \<open>(nil, nil)\<close> but installs.
\<close>

theorem C7_counterexample:
  "InstallLatest no_sidecar_world foo_requirement (install_opts [good_getter] [''/plugins'']) []
     = (Returned (Inr (Some v2_Installation)), binary_only_fs)
   \<and> InstallLatest no_sidecar_world foo_requirement (install_opts [good_getter] [''/plugins''])
       binary_only_fs
     = (Returned (Inr (Some v2_Installation)), binary_only_fs)
   \<and> InstallLatest temp_world foo_requirement (install_opts [only_v1_getter] [''/plugins'']) []
     = (Returned (Inr (Some v1_Installation)), installed_v1_temp_fs)
   \<and> InstallLatest temp_world foo_requirement (install_opts [only_v1_getter] [''/plugins''])
       installed_v1_temp_fs
     = (Returned (Inr None), (''/tmp/packer-plugin-00000.zip'', []) # installed_v1_temp_fs)
   \<and> (''/tmp/packer-plugin-00000.zip'', []) # installed_v1_temp_fs \<noteq> installed_v1_temp_fs
   \<and> GetChecksumOfFile trusting_checksummer (BinaryPath v2_Installation) binary_only_fs
     = Inr []
   \<and> ChecksumFile trusting_checksummer [] (BinaryPath v2_Installation) binary_only_fs = None
   \<and> InstallLatest ex_world foo_requirement trusting_opts binary_only_fs
     = (Returned (Inr (Some v2_Installation)), installed_fs)"
  by code_simp

subsection \<open>The order of the versions\<close>

text \<open>
  Claim C5, as amended. Let \<^verbatim>\<open>sort.Sort(sort.Reverse(versions))\<close> return its argument
  in descending order: no element is less than a later one. When \<open>InstallLatest\<close>
  returns an installation, the candidate versions are the satisfying versions of the
  index of the first getter that yields any (the getters \<open>gs1\<close> before it yield none),
  sorted so; the versions \<open>tried\<close> before \<open>ver\<close> in that order each ended by going on
  to the next version, the attempt at \<open>ver\<close> returned the installation, and its
  \<open>Version\<close> is \<open>v\<close> followed by the string of \<open>ver\<close>. The order is descending, not
  strictly: a version listed twice is tried twice.
\<close>

theorem C5_versions_tried_in_sorted_order:
  "(\<forall>xs. sorted_wrt (\<lambda>a b. \<not> LessThan w a b) (Sort_Reverse w xs))
   \<and> InstallLatest w pr opts s = (Returned (Inr (Some inst)), s')
   \<longrightarrow> (\<exists>gs1 g gs2 f rels parsed tried ver rest sa.
          Getters opts = gs1 @ g # gs2
        \<and> discover_versions w pr (initial_GetOptions pr opts) gs1 [] = Returned []
        \<and> g ''releases'' (initial_GetOptions pr opts) = Inr f
        \<and> ParseReleases w f = Inr rels
        \<and> map (\<lambda>r. NewVersion w (Release_Version r)) rels = map Inr parsed
        \<and> Sort_Reverse w (filter (Check w (VersionConstraints pr)) parsed)
            = tried @ ver # rest
        \<and> sorted_wrt (\<lambda>a b. \<not> LessThan w a b) (tried @ ver # rest)
        \<and> exhausted w pr opts (initial_GetOptions pr opts) tried s = Some sa
        \<and> try_version w pr opts (initial_GetOptions pr opts) ver sa
            = (Stop (Returned (Inr (Some inst))), s')
        \<and> Version inst = ''v'' @ Version_String w ver)"
proof
  let ?go = "initial_GetOptions pr opts"
  assume h: "(\<forall>xs. sorted_wrt (\<lambda>a b. \<not> LessThan w a b) (Sort_Reverse w xs))
   \<and> InstallLatest w pr opts s = (Returned (Inr (Some inst)), s')"
  from InstallLatest_Some [of w pr opts s inst s'] h obtain versions where
    d: "discover_versions w pr ?go (Getters opts) [] = Returned versions" and ne: "versions \<noteq> []"
    and t: "try_versions w pr opts ?go versions s = (Returned (Inr (Some inst)), s')"
    by blast
  from discover_versions_Returned [OF d ne] obtain gs1 g gs2 f rels vs' where
    g: "Getters opts = gs1 @ g # gs2" "discover_versions w pr ?go gs1 [] = Returned []"
       "g ''releases'' ?go = Inr f" "ParseReleases w f = Inr rels"
    and c: "collect_versions w (VersionConstraints pr) rels [] = Returned vs'"
    and v: "versions = Sort_Reverse w vs'"
    by blast
  from collect_versions_Returned [OF c] obtain parsed where
    p: "map (\<lambda>r. NewVersion w (Release_Version r)) rels = map Inr parsed"
    and vs': "vs' = filter (Check w (VersionConstraints pr)) parsed"
    by auto
  from try_versions_Some [OF t] obtain tried ver rest sa where
    e: "versions = tried @ ver # rest" "exhausted w pr opts ?go tried s = Some sa"
    and tv: "try_version w pr opts ?go ver sa = (Stop (Returned (Inr (Some inst))), s')"
    by blast
  from try_version_Some [OF tv] obtain fc sm where
    "fetch_archive w (?go\<lparr>version := Some ver\<rparr>) fc (outputFileName_of w pr opts fc) ver
       (Getters opts) sm = (Stop (Returned (Inr (Some inst))), s')"
    by blast
  from fetch_archive_Some [OF this] have n: "Version inst = ''v'' @ Version_String w ver"
    by simp
  have srt: "sorted_wrt (\<lambda>a b. \<not> LessThan w a b) (tried @ ver # rest)"
    using h e(1) v by metis
  have "Sort_Reverse w (filter (Check w (VersionConstraints pr)) parsed) = tried @ ver # rest"
    using e(1) v vs' by simp
  with g p srt e(2) tv n
  show "\<exists>gs1 g gs2 f rels parsed tried ver rest sa.
          Getters opts = gs1 @ g # gs2
        \<and> discover_versions w pr ?go gs1 [] = Returned []
        \<and> g ''releases'' ?go = Inr f
        \<and> ParseReleases w f = Inr rels
        \<and> map (\<lambda>r. NewVersion w (Release_Version r)) rels = map Inr parsed
        \<and> Sort_Reverse w (filter (Check w (VersionConstraints pr)) parsed)
            = tried @ ver # rest
        \<and> sorted_wrt (\<lambda>a b. \<not> LessThan w a b) (tried @ ver # rest)
        \<and> exhausted w pr opts ?go tried s = Some sa
        \<and> try_version w pr opts ?go ver sa = (Stop (Returned (Inr (Some inst))), s')
        \<and> Version inst = ''v'' @ Version_String w ver"
    by blast
qed

theorem C5_witness:
  "(\<forall>xs. sorted_wrt (\<lambda>a b. \<not> LessThan ex_world a b) (Sort_Reverse ex_world xs))
   \<and> InstallLatest ex_world foo_requirement (install_opts [only_v1_getter] [''/plugins'']) []
       = (Returned (Inr (Some v1_Installation)), installed_v1_fs)
   \<and> (\<exists>gs1 g gs2 f rels parsed tried ver rest sa.
          Getters (install_opts [only_v1_getter] [''/plugins'']) = gs1 @ g # gs2
        \<and> discover_versions ex_world foo_requirement
             (initial_GetOptions foo_requirement (install_opts [only_v1_getter] [''/plugins'']))
             gs1 [] = Returned []
        \<and> g ''releases''
             (initial_GetOptions foo_requirement (install_opts [only_v1_getter] [''/plugins'']))
            = Inr f
        \<and> ParseReleases ex_world f = Inr rels
        \<and> map (\<lambda>r. NewVersion ex_world (Release_Version r)) rels = map Inr parsed
        \<and> Sort_Reverse ex_world (filter (Check ex_world (VersionConstraints foo_requirement)) parsed)
            = tried @ ver # rest
        \<and> sorted_wrt (\<lambda>a b. \<not> LessThan ex_world a b) (tried @ ver # rest)
        \<and> exhausted ex_world foo_requirement (install_opts [only_v1_getter] [''/plugins''])
             (initial_GetOptions foo_requirement (install_opts [only_v1_getter] [''/plugins'']))
             tried [] = Some sa
        \<and> try_version ex_world foo_requirement (install_opts [only_v1_getter] [''/plugins''])
             (initial_GetOptions foo_requirement (install_opts [only_v1_getter] [''/plugins'']))
             ver sa
            = (Stop (Returned (Inr (Some v1_Installation))), installed_v1_fs)
        \<and> Version v1_Installation = ''v'' @ Version_String ex_world ver)
   \<and> exhausted ex_world foo_requirement (install_opts [only_v1_getter] [''/plugins''])
        (initial_GetOptions foo_requirement (install_opts [only_v1_getter] [''/plugins'']))
        [[2, 0, 0]] [] = Some []
   \<and> try_version ex_world foo_requirement (install_opts [only_v1_getter] [''/plugins''])
        (initial_GetOptions foo_requirement (install_opts [only_v1_getter] [''/plugins'']))
        [1, 0, 0] [] = (Stop (Returned (Inr (Some v1_Installation))), installed_v1_fs)"
proof -
  have i: "InstallLatest ex_world foo_requirement (install_opts [only_v1_getter] [''/plugins'']) []
       = (Returned (Inr (Some v1_Installation)), installed_v1_fs)"
    by code_simp
  have e: "exhausted ex_world foo_requirement (install_opts [only_v1_getter] [''/plugins''])
        (initial_GetOptions foo_requirement (install_opts [only_v1_getter] [''/plugins'']))
        [[2, 0, 0]] [] = Some []"
    by code_simp
  have t: "try_version ex_world foo_requirement (install_opts [only_v1_getter] [''/plugins''])
        (initial_GetOptions foo_requirement (install_opts [only_v1_getter] [''/plugins'']))
        [1, 0, 0] [] = (Stop (Returned (Inr (Some v1_Installation))), installed_v1_fs)"
    by code_simp
  show ?thesis
    using C5_versions_tried_in_sorted_order
      [where w = ex_world and pr = foo_requirement
         and opts = "install_opts [only_v1_getter] [''/plugins'']" and s = "[]"
         and inst = v1_Installation and s' = installed_v1_fs]
      ex_world_sorts_descending i e t
    by simp
qed

text \<open>
  The claim as stated fails on an index that lists a version twice: both are
  candidates, both are tried (no getter has the archive, each attempt goes on to the
  next version), and the list is not strictly descending.
\<close>

theorem C5_counterexample:
  "discover_versions ex_world foo_requirement
     (initial_GetOptions foo_requirement (install_opts [twice_getter] [''/plugins'']))
     (Getters (install_opts [twice_getter] [''/plugins''])) []
     = Returned [[1, 0, 0], [1, 0, 0]]
   \<and> exhausted ex_world foo_requirement (install_opts [twice_getter] [''/plugins''])
       (initial_GetOptions foo_requirement (install_opts [twice_getter] [''/plugins'']))
       [[1, 0, 0], [1, 0, 0]] [] = Some []
   \<and> \<not> LessThan ex_world [1, 0, 0] [1, 0, 0]
   \<and> \<not> sorted_wrt (\<lambda>a b. LessThan ex_world b a) [[1, 0, 0], [1, 0, 0]]"
  by code_simp

subsection \<open>The checksum gate\<close>

text \<open>
  Claim C1. A binary \<open>B\<close> for which no checksummer of the list both returns a
  sidecar digest and verifies \<open>B\<close> against it is not among the installations that
  \<open>ListInstallations\<close> returns. When \<open>InstallLatest\<close> returns an installation, a
  checksum \<open>fc\<close> was located for its version, and the binary is the entry of an
  archive \<open>z\<close>, fetched from one of the getters, that passed the check of \<open>fc\<close>'s
  checksummer against \<open>fc\<close>'s expected digest.
\<close>

theorem C1_checksum_gate:
  "(ListInstallations w pr lopts s = Returned (Inr l)
    \<and> \<not> (\<exists>c \<in> set (Checksummers (List_BinOpts lopts)).
            \<exists>d. GetChecksumOfFile c B s = Inr d \<and> ChecksumFile c d B s = None)
    \<longrightarrow> B \<notin> BinaryPath ` set l)
   \<and> (InstallLatest w pr opts s = (Returned (Inr (Some inst)), s')
    \<longrightarrow> (\<exists>ver fc g z files copyFrom.
          locate_checksum w ((initial_GetOptions pr opts)\<lparr>version := Some ver\<rparr>)
            (Getters opts) (Checksummers (Install_BinOpts opts)) = Returned (Inr (Some fc))
        \<and> g \<in> set (Getters opts)
        \<and> g ''zip'' ((initial_GetOptions pr opts)\<lparr>version := Some ver\<rparr>) = Inr (z, None)
        \<and> Checksum (FC_Checksummer fc) (FC_Expected fc) z = None
        \<and> ZipReader w z = Inr files
        \<and> find_zip_entry files (filepath_Base (BinaryPath inst)) = Inr (Some copyFrom)
        \<and> BinaryPath inst = outputFileName_of w pr opts fc))"
proof (intro conjI impI)
  assume h: "ListInstallations w pr lopts s = Returned (Inr l)
    \<and> \<not> (\<exists>c \<in> set (Checksummers (List_BinOpts lopts)).
            \<exists>d. GetChecksumOfFile c B s = Inr d \<and> ChecksumFile c d B s = None)"
  then have "scan_folders w pr lopts (FromFolders lopts) [] s = Returned (Inr l)"
    by (simp add: ListInstallations_def)
  from scan_folders_checked [OF this]
  have ok: "\<forall>i \<in> set l. checksumOk (Checksummers (List_BinOpts lopts)) (BinaryPath i) s"
    by simp
  show "B \<notin> BinaryPath ` set l"
  proof
    assume "B \<in> BinaryPath ` set l"
    then obtain i where "i \<in> set l" "B = BinaryPath i" by blast
    with ok have "checksumOk (Checksummers (List_BinOpts lopts)) B s" by simp
    with h show False unfolding checksumOk_iff by blast
  qed
next
  let ?go = "initial_GetOptions pr opts"
  assume "InstallLatest w pr opts s = (Returned (Inr (Some inst)), s')"
  from InstallLatest_Some [OF this] obtain versions where
    "try_versions w pr opts ?go versions s = (Returned (Inr (Some inst)), s')"
    by blast
  from try_versions_Some [OF this] obtain ver sa where
    "try_version w pr opts ?go ver sa = (Stop (Returned (Inr (Some inst))), s')"
    by blast
  from try_version_Some [OF this] obtain fc sm where
    l: "locate_checksum w (?go\<lparr>version := Some ver\<rparr>) (Getters opts)
          (Checksummers (Install_BinOpts opts)) = Returned (Inr (Some fc))"
    and f: "fetch_archive w (?go\<lparr>version := Some ver\<rparr>) fc (outputFileName_of w pr opts fc)
              ver (Getters opts) sm = (Stop (Returned (Inr (Some inst))), s')"
    by blast
  from fetch_archive_Some [OF f] obtain g z files copyFrom where
    b: "BinaryPath inst = outputFileName_of w pr opts fc"
    and g: "g \<in> set (Getters opts)" "g ''zip'' (?go\<lparr>version := Some ver\<rparr>) = Inr (z, None)"
      "Checksum (FC_Checksummer fc) (FC_Expected fc) z = None"
      "ZipReader w z = Inr files"
      "find_zip_entry files (filepath_Base (outputFileName_of w pr opts fc)) = Inr (Some copyFrom)"
    by auto
  show "\<exists>ver fc g z files copyFrom.
          locate_checksum w (?go\<lparr>version := Some ver\<rparr>)
            (Getters opts) (Checksummers (Install_BinOpts opts)) = Returned (Inr (Some fc))
        \<and> g \<in> set (Getters opts)
        \<and> g ''zip'' (?go\<lparr>version := Some ver\<rparr>) = Inr (z, None)
        \<and> Checksum (FC_Checksummer fc) (FC_Expected fc) z = None
        \<and> ZipReader w z = Inr files
        \<and> find_zip_entry files (filepath_Base (BinaryPath inst)) = Inr (Some copyFrom)
        \<and> BinaryPath inst = outputFileName_of w pr opts fc"
    using l g b by metis
qed

theorem C1_witness:
  "ListInstallations ex_world foo_requirement list_opts two_binaries_fs
     = Returned (Inr [\<lparr>BinaryPath =
          ''/plugins/github.com/ex/foo/packer-plugin-foo_v1.2.3_x5.0_linux_amd64'',
          Version = ''v1.2.3''\<rparr>])
   \<and> Glob ex_world
        (Join ex_world [''/plugins'', ''github.com'', ''ex'', ''foo'',
           FilenamePrefix foo_requirement @ ''*'' @ filenameSuffix (List_BinOpts list_opts)])
        two_binaries_fs
     = Inr [''/plugins/github.com/ex/foo/packer-plugin-foo_v1.2.3_x5.0_linux_amd64'',
            ''/plugins/github.com/ex/foo/packer-plugin-foo_v1.2.4_x5.0_linux_amd64'']
   \<and> \<not> (\<exists>c \<in> set (Checksummers (List_BinOpts list_opts)).
            \<exists>d. GetChecksumOfFile c
                   ''/plugins/github.com/ex/foo/packer-plugin-foo_v1.2.4_x5.0_linux_amd64''
                   two_binaries_fs = Inr d
               \<and> ChecksumFile c d
                   ''/plugins/github.com/ex/foo/packer-plugin-foo_v1.2.4_x5.0_linux_amd64''
                   two_binaries_fs = None)
   \<and> ''/plugins/github.com/ex/foo/packer-plugin-foo_v1.2.4_x5.0_linux_amd64''
       \<notin> BinaryPath ` set [\<lparr>BinaryPath =
          ''/plugins/github.com/ex/foo/packer-plugin-foo_v1.2.3_x5.0_linux_amd64'',
          Version = ''v1.2.3''\<rparr>]
   \<and> InstallLatest ex_world foo_requirement (install_opts [good_getter] [''/plugins'']) []
       = (Returned (Inr (Some v2_Installation)), installed_fs)
   \<and> (\<exists>ver fc g z files copyFrom.
          locate_checksum ex_world
            ((initial_GetOptions foo_requirement (install_opts [good_getter] [''/plugins'']))
               \<lparr>version := Some ver\<rparr>)
            (Getters (install_opts [good_getter] [''/plugins'']))
            (Checksummers (Install_BinOpts (install_opts [good_getter] [''/plugins''])))
            = Returned (Inr (Some fc))
        \<and> g \<in> set (Getters (install_opts [good_getter] [''/plugins'']))
        \<and> g ''zip''
            ((initial_GetOptions foo_requirement (install_opts [good_getter] [''/plugins'']))
               \<lparr>version := Some ver\<rparr>) = Inr (z, None)
        \<and> Checksum (FC_Checksummer fc) (FC_Expected fc) z = None
        \<and> ZipReader ex_world z = Inr files
        \<and> find_zip_entry files (filepath_Base (BinaryPath v2_Installation))
            = Inr (Some copyFrom)
        \<and> BinaryPath v2_Installation
            = outputFileName_of ex_world foo_requirement
                (install_opts [good_getter] [''/plugins'']) fc)"
proof -
  let ?B = "''/plugins/github.com/ex/foo/packer-plugin-foo_v1.2.4_x5.0_linux_amd64''"
  have li: "ListInstallations ex_world foo_requirement list_opts two_binaries_fs
     = Returned (Inr [\<lparr>BinaryPath =
          ''/plugins/github.com/ex/foo/packer-plugin-foo_v1.2.3_x5.0_linux_amd64'',
          Version = ''v1.2.3''\<rparr>])"
    by code_simp
  have gl: "Glob ex_world
        (Join ex_world [''/plugins'', ''github.com'', ''ex'', ''foo'',
           FilenamePrefix foo_requirement @ ''*'' @ filenameSuffix (List_BinOpts list_opts)])
        two_binaries_fs
     = Inr [''/plugins/github.com/ex/foo/packer-plugin-foo_v1.2.3_x5.0_linux_amd64'', ?B]"
    by code_simp
  have cs: "Checksummers (List_BinOpts list_opts) = [ex_checksummer]"
    by (simp add: list_opts_def host_5_0_def)
  have gc: "GetChecksumOfFile ex_checksummer ?B two_binaries_fs = Inl (External 3)"
    by code_simp
  have no: "\<not> (\<exists>c \<in> set (Checksummers (List_BinOpts list_opts)).
            \<exists>d. GetChecksumOfFile c ?B two_binaries_fs = Inr d
               \<and> ChecksumFile c d ?B two_binaries_fs = None)"
    by (simp add: cs gc)
  have il: "InstallLatest ex_world foo_requirement (install_opts [good_getter] [''/plugins'']) []
       = (Returned (Inr (Some v2_Installation)), installed_fs)"
    by code_simp
  note C1 = C1_checksum_gate [where w = ex_world and pr = foo_requirement
      and lopts = list_opts and s = two_binaries_fs and B = ?B
      and opts = "install_opts [good_getter] [''/plugins'']"
      and inst = v2_Installation and s' = installed_fs]
  show ?thesis
    using li gl no il C1 C1_checksum_gate [where w = ex_world and pr = foo_requirement
        and opts = "install_opts [good_getter] [''/plugins'']" and s = "[]"
        and inst = v2_Installation and s' = installed_fs]
    by blast
qed

end
